theory Spec2Isabelle
  imports Complex_Main "HOL-Library.Word" "HOL-Library.AList" "HOL-Library.Multiset"
begin

section \<open>Atlas packer (processor/packer.js)\<close>

text \<open>
  JavaScript numbers that hold pixel quantities and indices are modelled as \<open>int\<close>
  (the arithmetic of the packer is exact on integers below \<open>2^53\<close>). A \<open>Buffer\<close> is a
  list of bytes. A property that may be \<open>undefined\<close> is an \<open>option\<close>.
\<close>

type_synonym buffer = "8 word list"

record frame =
  name :: "string option"
  buffer :: buffer
  f_width :: int
  f_height :: int
  animation :: "string option"
  frameIndex :: int
  fps :: "int option"


record position =
  pos_x :: int
  pos_y :: int

record layout =
  positions :: "position list"
  l_width :: int
  l_height :: int

text \<open>The mutable locals of \<open>calculateLayout\<close>.\<close>

record layout_state =
  st_positions :: "position list"
  currentX :: int
  currentY :: int
  rowHeight :: int
  sheetWidth :: int
  sheetHeight :: int

text \<open>One iteration of the \<open>for (const frame of frames)\<close> loop of \<open>calculateLayout\<close>.\<close>

definition layout_step :: "int \<Rightarrow> int \<Rightarrow> frame \<Rightarrow> layout_state \<Rightarrow> layout_state" where
  "layout_step pad maxW fr st =
     (let st1 = (if currentX st + f_width fr + pad > maxW
                 then st\<lparr>currentX := pad,
                         currentY := currentY st + (rowHeight st + pad),
                         rowHeight := 0\<rparr>
                 else st);
          st2 = st1\<lparr>st_positions := st_positions st1 @ [\<lparr>pos_x = currentX st1, pos_y = currentY st1\<rparr>]\<rparr>;
          st3 = st2\<lparr>currentX := currentX st2 + (f_width fr + pad)\<rparr>;
          st4 = st3\<lparr>rowHeight := max (rowHeight st3) (f_height fr)\<rparr>;
          st5 = st4\<lparr>sheetWidth := max (sheetWidth st4) (currentX st4)\<rparr>
      in st5\<lparr>sheetHeight := max (sheetHeight st5) (currentY st5 + rowHeight st5 + pad)\<rparr>)"

fun layout_loop :: "int \<Rightarrow> int \<Rightarrow> frame list \<Rightarrow> layout_state \<Rightarrow> layout_state" where
  "layout_loop pad maxW [] st = st"
| "layout_loop pad maxW (fr # frs) st = layout_loop pad maxW frs (layout_step pad maxW fr st)"

definition layout_init :: "int \<Rightarrow> layout_state" where
  "layout_init pad =
     \<lparr>st_positions = [], currentX = pad, currentY = pad, rowHeight = 0,
      sheetWidth = 0, sheetHeight = 0\<rparr>"

definition calculateLayout :: "frame list \<Rightarrow> int \<Rightarrow> int \<Rightarrow> layout" where
  "calculateLayout frames pad maxW =
     (let st = layout_loop pad maxW frames (layout_init pad)
      in \<lparr>positions = st_positions st, l_width = sheetWidth st, l_height = sheetHeight st\<rparr>)"

text \<open>
  \<open>[...frames].sort((a, b) => b.height - a.height)\<close>: a stable sort by height, tallest
  first (\<open>Array.prototype.sort\<close> is stable; \<open>sort_key\<close> is the stable insertion sort).
\<close>

definition sortFrames :: "frame list \<Rightarrow> frame list" where
  "sortFrames frames = sort_key (\<lambda>fr. - f_height fr) frames"



subsection \<open>Atlas metadata\<close>

record rect =
  r_x :: int
  r_y :: int
  r_w :: int
  r_h :: int

record dims =
  d_w :: int
  d_h :: int

record atlas_frame =
  af_frame :: rect
  af_rotated :: bool
  af_trimmed :: bool
  af_spriteSourceSize :: rect
  af_sourceSize :: dims


text \<open>
  A JavaScript object used as a dictionary is an association list of its own properties,
  with distinct keys: assigning to a key that exists overwrites its value in place, a new
  key is added at the end (\<open>AList.update\<close>). Only lookups are used below, not the order
  of the keys.

  An object written as \<open>{}\<close> also inherits the properties of \<open>Object.prototype\<close>, whose
  names are listed in \<open>object_prototype_names\<close>. Reading such a name from an object
  that has no own property of that name gives the inherited value: a function, or for
  \<open>__proto__\<close> the prototype object; each of them is truthy and has no property
  \<open>frames\<close>. Assigning to \<open>__proto__\<close> calls the inherited setter, which replaces the
  prototype of the object and adds no own property; assigning to any other name adds or
  overwrites an own property.
\<close>

definition object_prototype_names :: "string list" where
  "object_prototype_names =
     [''constructor'', ''__defineGetter__'', ''__defineSetter__'', ''hasOwnProperty'',
      ''__lookupGetter__'', ''__lookupSetter__'', ''isPrototypeOf'',
      ''propertyIsEnumerable'', ''toString'', ''valueOf'', ''__proto__'',
      ''toLocaleString'']"


text \<open>Decimal rendering of an integer inside a template literal.\<close>

fun nat_string :: "nat \<Rightarrow> string" where
  "nat_string n =
     (if n < 10 then [''0123456789'' ! n]
      else nat_string (n div 10) @ [''0123456789'' ! (n mod 10)])"

declare nat_string.simps [simp del]

definition js_number_string :: "int \<Rightarrow> string" where
  "js_number_string i = (if i < 0 then ''-'' @ nat_string (nat (- i)) else nat_string (nat i))"

text \<open>\<open>frame.name || `${frame.animation}_${frame.frameIndex}`\<close>: an absent or empty
  name is falsy.\<close>

definition frameName :: "frame \<Rightarrow> string" where
  "frameName fr =
     (let generated = (case animation fr of None \<Rightarrow> ''undefined'' | Some a \<Rightarrow> a)
                        @ ''_'' @ js_number_string (frameIndex fr)
      in case name fr of None \<Rightarrow> generated
         | Some n \<Rightarrow> if n = [] then generated else n)"

definition atlas_entry :: "frame \<Rightarrow> position \<Rightarrow> atlas_frame" where
  "atlas_entry fr pos =
     \<lparr>af_frame = \<lparr>r_x = pos_x pos, r_y = pos_y pos, r_w = f_width fr, r_h = f_height fr\<rparr>,
      af_rotated = False,
      af_trimmed = False,
      af_spriteSourceSize = \<lparr>r_x = 0, r_y = 0, r_w = f_width fr, r_h = f_height fr\<rparr>,
      af_sourceSize = \<lparr>d_w = f_width fr, d_h = f_height fr\<rparr>\<rparr>"

datatype pack_error = NoFramesToPack | TypeError | SharpFailure string

text \<open>
  \<open>frames.forEach((frame, i) => atlas.frames[frameName] = {... positions[i] ...})\<close>.
  Reading \<open>positions[i].x\<close> beyond the end of \<open>positions\<close> is a \<open>TypeError\<close>.
  For the frame name \<open>__proto__\<close> the assignment replaces the prototype of
  \<open>atlas.frames\<close> and leaves its own properties as they are.
\<close>

fun atlas_add_frames ::
  "frame list \<Rightarrow> position list \<Rightarrow> (string \<times> atlas_frame) list
     \<Rightarrow> pack_error + (string \<times> atlas_frame) list" where
  "atlas_add_frames [] ps acc = Inr acc"
| "atlas_add_frames (fr # frs) [] acc = Inl TypeError"
| "atlas_add_frames (fr # frs) (p # ps) acc =
     atlas_add_frames frs ps
       (if frameName fr = ''__proto__'' then acc
        else AList.update (frameName fr) (atlas_entry fr p) acc)"


subsection \<open>Animation index\<close>

record frame_ref =
  ref_key :: string
  ref_frame :: int

record anim_def =
  anim_fps :: int
  anim_frames :: "frame_ref list"
  anim_loop :: bool

text \<open>\<open>frame.fps || 10\<close>.\<close>

definition fps_or_default :: "frame \<Rightarrow> int" where
  "fps_or_default fr = (case fps fr of None \<Rightarrow> 10 | Some v \<Rightarrow> if v = 0 then 10 else v)"

text \<open>
  One iteration of the grouping loop of \<open>generateAnimationsJson\<close>. A frame whose
  \<open>animation\<close> is absent or empty is skipped. \<open>animations[animName]\<close> is falsy only if
  the object has neither an own nor an inherited property of that name; only then the
  entry is created. If afterwards \<open>animations[animName]\<close> is not an entry but an inherited
  value, its \<open>frames\<close> is \<open>undefined\<close> and the call of \<open>push\<close> throws a \<open>TypeError\<close>.
\<close>

definition anim_step ::
  "frame \<Rightarrow> (string \<times> anim_def) list \<Rightarrow> pack_error + (string \<times> anim_def) list" where
  "anim_step fr anims =
     (case animation fr of
        None \<Rightarrow> Inr anims
      | Some animName \<Rightarrow>
          if animName = [] then Inr anims
          else
            let anims1 =
                  (if map_of anims animName = None \<and> animName \<notin> set object_prototype_names
                   then AList.update animName
                          \<lparr>anim_fps = fps_or_default fr, anim_frames = [], anim_loop = True\<rparr> anims
                   else anims)
            in if map_of anims1 animName = None then Inl TypeError
               else Inr (AList.map_entry animName
                           (\<lambda>d. d\<lparr>anim_frames :=
                                    anim_frames d @ [\<lparr>ref_key = frameName fr, ref_frame = frameIndex fr\<rparr>]\<rparr>)
                           anims1))"

text \<open>The loop \<open>for (const frame of frames)\<close>; an error thrown in an iteration ends it.\<close>

fun anim_loop ::
  "frame list \<Rightarrow> (string \<times> anim_def) list \<Rightarrow> pack_error + (string \<times> anim_def) list" where
  "anim_loop [] anims = Inr anims"
| "anim_loop (fr # frs) anims =
     (case anim_step fr anims of
        Inl e \<Rightarrow> Inl e
      | Inr anims1 \<Rightarrow> anim_loop frs anims1)"

text \<open>\<open>anim.frames.sort((a, b) => a.frame - b.frame)\<close> for every animation: a stable
  sort by frame index.\<close>

definition sort_anim :: "anim_def \<Rightarrow> anim_def" where
  "sort_anim d = d\<lparr>anim_frames := sort_key ref_frame (anim_frames d)\<rparr>"

definition generateAnimationsJson :: "frame list \<Rightarrow> pack_error + (string \<times> anim_def) list" where
  "generateAnimationsJson frames =
     (case anim_loop frames [] of
        Inl e \<Rightarrow> Inl e
      | Inr anims \<Rightarrow> Inr (map (\<lambda>(k, d). (k, sort_anim d)) anims))"

subsection \<open>packFrames\<close>








subsection \<open>Geometry of placed frames\<close>

text \<open>
  Two rectangles \<open>(x, y, w, h)\<close> of pixels intersect when they have a pixel in common.
\<close>

definition rects_intersect :: "rect \<Rightarrow> rect \<Rightarrow> bool" where
  "rects_intersect a b =
     (r_x a < r_x b + r_w b \<and> r_x b < r_x a + r_w a \<and>
      r_y a < r_y b + r_h b \<and> r_y b < r_y a + r_h a)"

text \<open>
  Padding between two placed frames, the second placed after the first: either both are
  in one row with a horizontal gap of at least the padding, or the second lies below the
  first with a vertical gap of at least the padding.
\<close>

definition separated :: "int \<Rightarrow> frame \<times> position \<Rightarrow> frame \<times> position \<Rightarrow> bool" where
  "separated pad a b =
     (pos_y (snd b) = pos_y (snd a) \<and> pos_x (snd a) + f_width (fst a) + pad \<le> pos_x (snd b)
      \<or> pos_y (snd a) + f_height (fst a) + pad \<le> pos_y (snd b))"

text \<open>A placed frame with respect to the state of the layout loop: in the current row
  and left of \<open>currentX\<close>, or in a row above.\<close>

definition placed_ok :: "int \<Rightarrow> layout_state \<Rightarrow> frame \<times> position \<Rightarrow> bool" where
  "placed_ok pad st a =
     (pos_y (snd a) = currentY st \<and> pos_x (snd a) + f_width (fst a) + pad \<le> currentX st
        \<and> f_height (fst a) \<le> rowHeight st
      \<or> pos_y (snd a) + f_height (fst a) + pad \<le> currentY st)"

definition layout_inv :: "int \<Rightarrow> frame list \<Rightarrow> layout_state \<Rightarrow> bool" where
  "layout_inv pad placed st =
     (length (st_positions st) = length placed \<and> 0 \<le> rowHeight st \<and>
      list_all (placed_ok pad st) (zip placed (st_positions st)) \<and>
      sorted_wrt (separated pad) (zip placed (st_positions st)))"

section \<open>Strip slicer (processor/slicer.js)\<close>

record strip_metadata =
  sm_width :: int
  sm_height :: int

record extract_region =
  ex_left :: int
  ex_top :: int
  ex_width :: int
  ex_height :: int

record extracted_frame =
  ef_buffer :: buffer
  ef_index :: int
  ef_x :: int
  ef_y :: int
  ef_width :: int
  ef_height :: int

text \<open>What \<open>sliceStrip\<close> writes to the logger, in order.\<close>

datatype slicer_log =
    WarnStripWidthMismatch int int
  | WarnStripHeightMismatch int int
  | WarnFrameExceedsBounds int
  | DebugExtractedFrame int int int
  | ErrorFailedToExtract int string
  | InfoSliced nat

text \<open>
  The loop \<open>for (let i = 0; i < frameCount; i++)\<close> of \<open>sliceStrip\<close>. The image library
  is a parameter: \<open>sharp_extract buf region\<close> is the encoded crop, or the message of the
  error it throws, which the loop logs and throws again. The \<open>break\<close> leaves the loop with
  the frames extracted so far.
\<close>

function slice_loop ::
  "(buffer \<Rightarrow> extract_region \<Rightarrow> string + buffer) \<Rightarrow> buffer \<Rightarrow> strip_metadata
     \<Rightarrow> int \<Rightarrow> int \<Rightarrow> int \<Rightarrow> int \<Rightarrow> extracted_frame list \<Rightarrow> slicer_log list
     \<Rightarrow> (string + extracted_frame list) \<times> slicer_log list" where
  "slice_loop sharp_extract stripBuffer md frameWidth frameHeight frameCount i frames lg =
     (if i < frameCount then
        (let x = i * frameWidth in
         if x + frameWidth > sm_width md
         then (Inr frames, lg @ [WarnFrameExceedsBounds i])
         else (case sharp_extract stripBuffer
                      \<lparr>ex_left = x, ex_top = 0,
                       ex_width = min frameWidth (sm_width md - x),
                       ex_height = min frameHeight (sm_height md)\<rparr> of
                 Inl e \<Rightarrow> (Inl e, lg @ [ErrorFailedToExtract i e])
               | Inr frameBuffer \<Rightarrow>
                   slice_loop sharp_extract stripBuffer md frameWidth frameHeight frameCount (i + 1)
                     (frames @ [\<lparr>ef_buffer = frameBuffer, ef_index = i, ef_x = x, ef_y = 0,
                                 ef_width = frameWidth, ef_height = frameHeight\<rparr>])
                     (lg @ [DebugExtractedFrame (i + 1) frameCount x])))
      else (Inr frames, lg))"
  by pat_completeness auto
termination
  by (relation "measure (\<lambda>(ext, buf, md, fw, fh, fc, i, frames, lg). nat (fc - i))") auto

declare slice_loop.simps [simp del]

definition sliceStrip ::
  "(buffer \<Rightarrow> string + strip_metadata) \<Rightarrow> (buffer \<Rightarrow> extract_region \<Rightarrow> string + buffer)
     \<Rightarrow> buffer \<Rightarrow> int \<Rightarrow> int \<Rightarrow> int
     \<Rightarrow> (string + extracted_frame list) \<times> slicer_log list" where
  "sliceStrip sharp_metadata sharp_extract stripBuffer frameWidth frameHeight frameCount =
     (case sharp_metadata stripBuffer of
        Inl e \<Rightarrow> (Inl e, [])
      | Inr md \<Rightarrow>
          (let expectedWidth = frameWidth * frameCount;
               lg1 = (if sm_width md \<noteq> expectedWidth
                      then [WarnStripWidthMismatch expectedWidth (sm_width md)] else []);
               lg2 = lg1 @ (if sm_height md \<noteq> frameHeight
                            then [WarnStripHeightMismatch frameHeight (sm_height md)] else [])
           in case slice_loop sharp_extract stripBuffer md frameWidth frameHeight frameCount 0 [] lg2 of
                (Inl e, lg) \<Rightarrow> (Inl e, lg)
              | (Inr frames, lg) \<Rightarrow> (Inr frames, lg @ [InfoSliced (length frames)])))"

text \<open>
  The wording of the specification: a frame's rectangle \<open>(x, y, w, h)\<close> exceeds the
  bounds of a strip of the given width and height.
\<close>

definition rect_exceeds_bounds :: "strip_metadata \<Rightarrow> int \<Rightarrow> int \<Rightarrow> int \<Rightarrow> int \<Rightarrow> bool" where
  "rect_exceeds_bounds md x y w h = (x + w > sm_width md \<or> y + h > sm_height md)"

section \<open>Background removal (validator/png-validator.js)\<close>

record rgb =
  rgb_r :: int
  rgb_g :: int
  rgb_b :: int

record remove_options =
  backgroundColor :: "rgb option"
  tolerance :: "int option"

record raw_info =
  info_width :: int
  info_height :: int

record raw_image =
  raw_data :: buffer
  raw_info :: raw_info

text \<open>\<open>data[i]\<close> on a \<open>Buffer\<close>: the byte as a number, \<open>undefined\<close> out of range.\<close>

definition byte_at :: "buffer \<Rightarrow> int \<Rightarrow> int option" where
  "byte_at d i = (if 0 \<le> i \<and> i < int (length d) then Some (uint (d ! nat i)) else None)"

text \<open>\<open>Math.abs(c - target) <= tolerance\<close>; with \<open>c\<close> undefined the comparison is false.\<close>

definition channel_close :: "int option \<Rightarrow> int \<Rightarrow> int \<Rightarrow> bool" where
  "channel_close c target tol = (case c of None \<Rightarrow> False | Some v \<Rightarrow> \<bar>v - target\<bar> \<le> tol)"

definition matchesBackground :: "rgb \<Rightarrow> int \<Rightarrow> buffer \<Rightarrow> nat \<Rightarrow> bool" where
  "matchesBackground bg tol d i =
     (channel_close (byte_at d (int i)) (rgb_r bg) tol \<and>
      channel_close (byte_at d (int i + 1)) (rgb_g bg) tol \<and>
      channel_close (byte_at d (int i + 2)) (rgb_b bg) tol)"

text \<open>
  \<open>for (let i = 0; i < data.length; i += 4)\<close>, mutating \<open>data\<close> in place. A write beyond
  the end of a \<open>Buffer\<close> is ignored, as \<open>list_update\<close> does.
\<close>

function removeBackground_loop :: "rgb \<Rightarrow> int \<Rightarrow> nat \<Rightarrow> buffer \<Rightarrow> buffer" where
  "removeBackground_loop bg tol i d =
     (if i < length d
      then removeBackground_loop bg tol (i + 4)
             (if matchesBackground bg tol d i then d[i + 3 := 0] else d)
      else d)"
  by pat_completeness auto
termination
  by (relation "measure (\<lambda>(bg, tol, i, d). length d - i)") auto

declare removeBackground_loop.simps [simp del]

text \<open>
  \<open>removeBackground\<close>: decode to raw RGBA (\<open>sharp_raw_alpha\<close>, which may throw), process
  the pixels, encode the result as PNG (\<open>sharp_png\<close>, which may throw).
\<close>

definition removeBackground ::
  "(buffer \<Rightarrow> string + raw_image) \<Rightarrow> (raw_image \<Rightarrow> string + buffer)
     \<Rightarrow> buffer \<Rightarrow> remove_options \<Rightarrow> string + buffer" where
  "removeBackground sharp_raw_alpha sharp_png imageBuffer options =
     (let bg = (case backgroundColor options of
                  None \<Rightarrow> \<lparr>rgb_r = 255, rgb_g = 255, rgb_b = 255\<rparr> | Some c \<Rightarrow> c);
          tol = (case tolerance options of None \<Rightarrow> 10 | Some t \<Rightarrow> t)
      in case sharp_raw_alpha imageBuffer of
           Inl e \<Rightarrow> Inl e
         | Inr img \<Rightarrow>
             sharp_png \<lparr>raw_data = removeBackground_loop bg tol 0 (raw_data img),
                        raw_info = raw_info img\<rparr>)"

section \<open>PNG validator (validator/png-validator.js)\<close>

record image_metadata =
  md_format :: string
  md_width :: int
  md_height :: int
  md_channels :: int
  md_hasAlpha :: bool

text \<open>\<open>config.validation\<close>.\<close>

record validation_config =
  cornerSampleSize :: int
  alphaThreshold :: int
  minTransparentBorderPercent :: int

definition config_validation :: validation_config where
  "config_validation =
     \<lparr>cornerSampleSize = 5, alphaThreshold = 10, minTransparentBorderPercent = 95\<rparr>"

record expected_spec =
  exp_width :: "int option"
  exp_height :: "int option"

text \<open>
  The messages of the validator, with the values they interpolate. The measured percentage
  is kept exact (\<open>None\<close> is \<open>NaN\<close>); its rendering by \<open>toFixed(1)\<close> is not modelled.
\<close>

datatype validation_message =
    InvalidFormat string
  | InvalidChannels int
  | MissingAlphaChannel
  | InvalidWidth int int
  | InvalidHeight int int
  | BackgroundNotTransparent
  | OnlyPercentTransparent "rat option" int
  | FailedToParse string

record transparency_result =
  isTransparent :: bool
  transparentPercent :: "rat option"
  totalBorderPixels :: int
  transparentPixels :: int
  details :: "validation_message list"

text \<open>The counters \<open>(transparentPixels, totalBorderPixels)\<close>.\<close>

type_synonym counters = "int \<times> int"

text \<open>\<open>getAlpha(x, y)\<close>: \<open>data[(y * info.width + x) * 4 + 3]\<close>.\<close>

definition getAlpha :: "raw_image \<Rightarrow> int \<Rightarrow> int \<Rightarrow> int option" where
  "getAlpha raw x y =
     (let idx = (y * info_width (raw_info raw) + x) * 4 in byte_at (raw_data raw) (idx + 3))"

text \<open>\<open>alpha <= alphaThreshold\<close>; an undefined alpha compares false.\<close>

definition alpha_transparent :: "validation_config \<Rightarrow> int option \<Rightarrow> bool" where
  "alpha_transparent cfg alpha = (case alpha of None \<Rightarrow> False | Some a \<Rightarrow> a \<le> alphaThreshold cfg)"

text \<open>\<open>totalBorderPixels++; if (alpha <= alphaThreshold) transparentPixels++\<close>.\<close>

definition count_sample :: "validation_config \<Rightarrow> int option \<Rightarrow> counters \<Rightarrow> counters" where
  "count_sample cfg alpha c =
     (case c of (t, n) \<Rightarrow> (if alpha_transparent cfg alpha then t + 1 else t, n + 1))"

function corner_dy_loop ::
  "validation_config \<Rightarrow> image_metadata \<Rightarrow> raw_image \<Rightarrow> int \<Rightarrow> int \<Rightarrow> int \<Rightarrow> int
     \<Rightarrow> counters \<Rightarrow> counters" where
  "corner_dy_loop cfg md raw cx cy dx dy c =
     (if dy < cornerSampleSize cfg \<and> cy + dy < md_height md
      then corner_dy_loop cfg md raw cx cy dx (dy + 1)
             (count_sample cfg (getAlpha raw (cx + dx) (cy + dy)) c)
      else c)"
  by pat_completeness auto
termination
  by (relation "measure (\<lambda>(cfg, md, raw, cx, cy, dx, dy, c). nat (cornerSampleSize cfg - dy))") auto

declare corner_dy_loop.simps [simp del]

function corner_dx_loop ::
  "validation_config \<Rightarrow> image_metadata \<Rightarrow> raw_image \<Rightarrow> int \<Rightarrow> int \<Rightarrow> int
     \<Rightarrow> counters \<Rightarrow> counters" where
  "corner_dx_loop cfg md raw cx cy dx c =
     (if dx < cornerSampleSize cfg \<and> cx + dx < md_width md
      then corner_dx_loop cfg md raw cx cy (dx + 1) (corner_dy_loop cfg md raw cx cy dx 0 c)
      else c)"
  by pat_completeness auto
termination
  by (relation "measure (\<lambda>(cfg, md, raw, cx, cy, dx, c). nat (cornerSampleSize cfg - dx))") auto

declare corner_dx_loop.simps [simp del]

text \<open>The four corners, in the order of the source.\<close>

definition corners :: "image_metadata \<Rightarrow> (int \<times> int) list" where
  "corners md =
     [(0, 0), (md_width md - 1, 0), (0, md_height md - 1), (md_width md - 1, md_height md - 1)]"

definition corners_loop ::
  "validation_config \<Rightarrow> image_metadata \<Rightarrow> raw_image \<Rightarrow> counters \<Rightarrow> counters" where
  "corners_loop cfg md raw c =
     fold (\<lambda>(cx, cy) acc. corner_dx_loop cfg md raw cx cy 0 acc) (corners md) c"

text \<open>\<open>Math.max(1, Math.floor(width / 20))\<close>.\<close>

definition sampleInterval :: "image_metadata \<Rightarrow> int" where
  "sampleInterval md = max 1 (md_width md div 20)"

function top_bottom_loop ::
  "validation_config \<Rightarrow> image_metadata \<Rightarrow> raw_image \<Rightarrow> int \<Rightarrow> counters \<Rightarrow> counters" where
  "top_bottom_loop cfg md raw x c =
     (if x < md_width md
      then top_bottom_loop cfg md raw (x + sampleInterval md)
             (count_sample cfg (getAlpha raw x (md_height md - 1))
                (count_sample cfg (getAlpha raw x 0) c))
      else c)"
  by pat_completeness auto
termination
  by (relation "measure (\<lambda>(cfg, md, raw, x, c). nat (md_width md - x))")
    (auto simp: sampleInterval_def)

declare top_bottom_loop.simps [simp del]

function left_right_loop ::
  "validation_config \<Rightarrow> image_metadata \<Rightarrow> raw_image \<Rightarrow> int \<Rightarrow> counters \<Rightarrow> counters" where
  "left_right_loop cfg md raw y c =
     (if y < md_height md
      then left_right_loop cfg md raw (y + sampleInterval md)
             (count_sample cfg (getAlpha raw (md_width md - 1) y)
                (count_sample cfg (getAlpha raw 0 y) c))
      else c)"
  by pat_completeness auto
termination
  by (relation "measure (\<lambda>(cfg, md, raw, y, c). nat (md_height md - y))")
    (auto simp: sampleInterval_def)

declare left_right_loop.simps [simp del]

text \<open>All samples of \<open>validateTransparency\<close>, starting from zero counters.\<close>

definition border_counters :: "validation_config \<Rightarrow> image_metadata \<Rightarrow> raw_image \<Rightarrow> counters" where
  "border_counters cfg md raw =
     left_right_loop cfg md raw 0
       (top_bottom_loop cfg md raw 0 (corners_loop cfg md raw (0, 0)))"

text \<open>
  \<open>(transparentPixels / totalBorderPixels) * 100\<close>; \<open>0 / 0\<close> is \<open>NaN\<close>. The value is the
  exact quotient; the source rounds the quotient and the product to double precision. For
  the minimal percentage 95 of \<open>config.validation\<close> the comparison
  \<open>transparentPercent >= minTransparentBorderPercent\<close> has the same outcome for both
  (\<open>19 / 20 * 100\<close> is rounded to 95); for other minimal percentages it need not, so
  statements about the outcome are made for 95 only.
\<close>

definition percent_of :: "counters \<Rightarrow> rat option" where
  "percent_of c =
     (case c of (t, n) \<Rightarrow> if n = 0 then None else Some (rat_of_int t / rat_of_int n * 100))"

text \<open>
  \<open>validateTransparency\<close>. \<open>sharp_raw img\<close> is the raw pixel data, or the message of
  the error thrown by \<open>image.raw().toBuffer()\<close>. A comparison with \<open>NaN\<close> is false.
\<close>

definition validateTransparency ::
  "(buffer \<Rightarrow> string + raw_image) \<Rightarrow> validation_config \<Rightarrow> buffer \<Rightarrow> image_metadata
     \<Rightarrow> string + transparency_result" where
  "validateTransparency sharp_raw cfg img md =
     (case sharp_raw img of
        Inl e \<Rightarrow> Inl e
      | Inr raw \<Rightarrow>
          (let c = border_counters cfg md raw;
               pct = percent_of c;
               ok = (case pct of None \<Rightarrow> False
                     | Some p \<Rightarrow> p \<ge> rat_of_int (minTransparentBorderPercent cfg))
           in Inr \<lparr>isTransparent = ok,
                   transparentPercent = pct,
                   totalBorderPixels = snd c,
                   transparentPixels = fst c,
                   details = (if \<not> ok
                              then [OnlyPercentTransparent pct (minTransparentBorderPercent cfg)]
                              else [])\<rparr>))"

record validation_result =
  isValid :: bool
  errors :: "validation_message list"
  warnings :: "validation_message list"
  vr_metadata :: "image_metadata option"
  vr_size :: nat

text \<open>\<open>expectedSpec.width && metadata.width !== expectedSpec.width\<close>: an absent or zero
  expectation is falsy.\<close>

definition dimension_errors ::
  "(int \<Rightarrow> int \<Rightarrow> validation_message) \<Rightarrow> int option \<Rightarrow> int \<Rightarrow> validation_message list" where
  "dimension_errors msg expected actual =
     (case expected of
        None \<Rightarrow> []
      | Some e \<Rightarrow> if e \<noteq> 0 \<and> actual \<noteq> e then [msg e actual] else [])"

text \<open>The errors pushed inside the \<open>try\<close> block once the metadata is read.\<close>

definition structural_errors :: "image_metadata \<Rightarrow> expected_spec \<Rightarrow> validation_message list" where
  "structural_errors md expectedSpec =
     (if md_format md \<noteq> ''png'' then [InvalidFormat (md_format md)] else [])
     @ (if md_channels md \<noteq> 4 then [InvalidChannels (md_channels md)] else [])
     @ (if \<not> md_hasAlpha md then [MissingAlphaChannel] else [])
     @ dimension_errors InvalidWidth (exp_width expectedSpec) (md_width md)
     @ dimension_errors InvalidHeight (exp_height expectedSpec) (md_height md)"

definition transparency_errors ::
  "(buffer \<Rightarrow> string + raw_image) \<Rightarrow> validation_config \<Rightarrow> buffer \<Rightarrow> image_metadata
     \<Rightarrow> validation_message list" where
  "transparency_errors sharp_raw cfg imageBuffer md =
     (if md_hasAlpha md
      then (case validateTransparency sharp_raw cfg imageBuffer md of
              Inl e \<Rightarrow> [FailedToParse e]
            | Inr tr \<Rightarrow> if \<not> isTransparent tr then BackgroundNotTransparent # details tr else [])
      else [])"

text \<open>
  \<open>validatePng\<close>. \<open>sharp_metadata\<close> is \<open>sharp(imageBuffer).metadata()\<close>, which throws on
  a buffer it cannot parse. Every error thrown inside the \<open>try\<close> block is caught and
  becomes a \<open>Failed to parse image\<close> entry after the errors pushed before it.
\<close>

definition validatePng ::
  "(buffer \<Rightarrow> string + image_metadata) \<Rightarrow> (buffer \<Rightarrow> string + raw_image)
     \<Rightarrow> validation_config \<Rightarrow> buffer \<Rightarrow> expected_spec \<Rightarrow> validation_result" where
  "validatePng sharp_metadata sharp_raw cfg imageBuffer expectedSpec =
     (let (errs, metadata) =
            (case sharp_metadata imageBuffer of
               Inl e \<Rightarrow> ([FailedToParse e], None)
             | Inr md \<Rightarrow>
                 (structural_errors md expectedSpec
                    @ transparency_errors sharp_raw cfg imageBuffer md,
                  Some md))
      in \<lparr>isValid = (length errs = 0), errors = errs, warnings = [],
          vr_metadata = metadata, vr_size = length imageBuffer\<rparr>)"

section \<open>Auxiliary notions and concrete inputs\<close>

text \<open>Four frames of 64 by 64 pixels of one animation, with frame indices 0 to 3.\<close>

definition frame64 :: "int \<Rightarrow> frame" where
  "frame64 i =
     \<lparr>name = None, buffer = [], f_width = 64, f_height = 64,
      animation = Some ''walk'', frameIndex = i, fps = None\<rparr>"

definition frames4 :: "frame list" where
  "frames4 = [frame64 0, frame64 1, frame64 2, frame64 3]"

text \<open>A single frame wider than the default maximal width.\<close>

definition wide_frame :: frame where
  "wide_frame =
     \<lparr>name = Some ''banner'', buffer = [], f_width = 3000, f_height = 64,
      animation = Some ''banner'', frameIndex = 0, fps = None\<rparr>"







text \<open>
  What the animation index holds for an animation name: its frame references in order,
  if the name is a key. \<open>frame_refs\<close> are the references of the frames of one animation
  in the order of the frame list.
\<close>

definition animation_frames :: "(string \<times> anim_def) list \<Rightarrow> string \<Rightarrow> frame_ref list option" where
  "animation_frames anims a = map_option anim_frames (map_of anims a)"

text \<open>The animation of a frame is the name of a property that every object inherits.\<close>

definition animation_name_inherited :: "frame \<Rightarrow> bool" where
  "animation_name_inherited fr =
     (case animation fr of None \<Rightarrow> False | Some a \<Rightarrow> a \<in> set object_prototype_names)"

definition frame_ref_of :: "frame \<Rightarrow> frame_ref" where
  "frame_ref_of fr = \<lparr>ref_key = frameName fr, ref_frame = frameIndex fr\<rparr>"

definition frame_refs :: "string \<Rightarrow> frame list \<Rightarrow> frame_ref list" where
  "frame_refs a frames = map frame_ref_of (filter (\<lambda>fr. animation fr = Some a) frames)"

text \<open>A frame of animation \<open>walk\<close> with frame index 0 and the given name.\<close>

definition walk_frame :: "string \<Rightarrow> frame" where
  "walk_frame n =
     \<lparr>name = Some n, buffer = [], f_width = 64, f_height = 64,
      animation = Some ''walk'', frameIndex = 0, fps = None\<rparr>"

text \<open>The region that \<open>sliceStrip\<close> extracts for frame \<open>k\<close> when the frame lies within the
  width of the strip: the height is cropped to the height of the strip.\<close>

definition strip_region :: "strip_metadata \<Rightarrow> int \<Rightarrow> int \<Rightarrow> int \<Rightarrow> extract_region" where
  "strip_region md frameWidth frameHeight k =
     \<lparr>ex_left = k * frameWidth, ex_top = 0, ex_width = frameWidth,
      ex_height = min frameHeight (sm_height md)\<rparr>"

text \<open>The two warnings about the dimensions of the strip.\<close>

definition is_mismatch_warning :: "slicer_log \<Rightarrow> bool" where
  "is_mismatch_warning e =
     (case e of WarnStripWidthMismatch a b \<Rightarrow> True | WarnStripHeightMismatch a b \<Rightarrow> True
      | _ \<Rightarrow> False)"

text \<open>Image libraries for the examples: a strip of 128 by 32 pixels, a strip of 200 by 64
  pixels, and an extraction that always succeeds.\<close>

definition short_strip_metadata :: "buffer \<Rightarrow> string + strip_metadata" where
  "short_strip_metadata b = Inr \<lparr>sm_width = 128, sm_height = 32\<rparr>"

definition narrow_strip_metadata :: "buffer \<Rightarrow> string + strip_metadata" where
  "narrow_strip_metadata b = Inr \<lparr>sm_width = 200, sm_height = 64\<rparr>"

definition extract_ok :: "buffer \<Rightarrow> extract_region \<Rightarrow> string + buffer" where
  "extract_ok b r = Inr []"

text \<open>An extraction that fails for the region that starts at the given column.\<close>

definition extract_fails_at :: "int \<Rightarrow> buffer \<Rightarrow> extract_region \<Rightarrow> string + buffer" where
  "extract_fails_at x b r = (if ex_left r = x then Inl ''extract_area: bad extract area'' else Inr [])"

text \<open>An image library for the example: the decoded image has a near-white and a dark
  pixel, both opaque; encoding returns the raw bytes.\<close>

definition raw_two_pixels :: "buffer \<Rightarrow> string + raw_image" where
  "raw_two_pixels b =
     Inr \<lparr>raw_data = [250, 250, 250, 255, 10, 20, 30, 255],
          raw_info = \<lparr>info_width = 2, info_height = 1\<rparr>\<rparr>"

definition png_of_raw :: "raw_image \<Rightarrow> string + buffer" where
  "png_of_raw img = Inr (raw_data img)"

definition default_remove_options :: remove_options where
  "default_remove_options = \<lparr>backgroundColor = None, tolerance = None\<rparr>"

text \<open>Image libraries for the examples: a JPEG of 100 by 64 pixels without alpha, and a
  buffer that cannot be parsed.\<close>

definition jpeg_metadata :: "buffer \<Rightarrow> string + image_metadata" where
  "jpeg_metadata b =
     Inr \<lparr>md_format = ''jpeg'', md_width = 100, md_height = 64, md_channels = 3,
          md_hasAlpha = False\<rparr>"

definition unparseable :: "buffer \<Rightarrow> string + image_metadata" where
  "unparseable b = Inl ''Input buffer contains unsupported image format''"

definition no_raw :: "buffer \<Rightarrow> string + raw_image" where
  "no_raw b = Inl ''Input buffer contains unsupported image format''"

text \<open>Counting a list of sampled pixels.\<close>

definition count_samples ::
  "validation_config \<Rightarrow> raw_image \<Rightarrow> (int \<times> int) list \<Rightarrow> counters \<Rightarrow> counters" where
  "count_samples cfg raw ps c = fold (\<lambda>p. count_sample cfg (getAlpha raw (fst p) (snd p))) ps c"









section \<open>The scenario of four 64x64 frames\<close>

lemma sortFrames_frames4: "sortFrames frames4 = frames4"
  by (simp add: sortFrames_def frames4_def frame64_def)

lemma layout_frames4:
  "calculateLayout frames4 2 2048 =
     \<lparr>positions = [\<lparr>pos_x = 2, pos_y = 2\<rparr>, \<lparr>pos_x = 68, pos_y = 2\<rparr>,
                   \<lparr>pos_x = 134, pos_y = 2\<rparr>, \<lparr>pos_x = 200, pos_y = 2\<rparr>],
      l_width = 266, l_height = 68\<rparr>"
  by (simp add: calculateLayout_def layout_init_def layout_step_def frames4_def frame64_def)

text \<open>
  Claim C2, as the code has it. Four frames of 64x64 packed with padding 2 and maximal
  width 2048 keep their order and are placed at (2,2), (68,2), (134,2) and (200,2). The
  sheet before any power-of-two rounding is 266 wide and 68 high: the running maximum is
  taken after \<open>currentX\<close> has advanced past the frame and its padding, and the height
  includes the padding below the row.
\<close>

theorem strip4_layout:
  assumes "length frames = 4"
    and "\<forall>fr\<in>set frames. f_width fr = 64 \<and> f_height fr = 64"
  shows "sortFrames frames = frames \<and>
         calculateLayout (sortFrames frames) 2 2048 =
           \<lparr>positions = [\<lparr>pos_x = 2, pos_y = 2\<rparr>, \<lparr>pos_x = 68, pos_y = 2\<rparr>,
                         \<lparr>pos_x = 134, pos_y = 2\<rparr>, \<lparr>pos_x = 200, pos_y = 2\<rparr>],
            l_width = 266, l_height = 68\<rparr>"
proof -
  from assms(1) obtain a b c d where fs: "frames = [a, b, c, d]"
    by (auto simp: length_Suc_conv numeral_eq_Suc)
  with assms(2) have s: "sortFrames frames = frames"
    by (simp add: sortFrames_def)
  from fs assms(2) have "calculateLayout frames 2 2048 =
           \<lparr>positions = [\<lparr>pos_x = 2, pos_y = 2\<rparr>, \<lparr>pos_x = 68, pos_y = 2\<rparr>,
                         \<lparr>pos_x = 134, pos_y = 2\<rparr>, \<lparr>pos_x = 200, pos_y = 2\<rparr>],
            l_width = 266, l_height = 68\<rparr>"
    by (simp add: calculateLayout_def layout_init_def layout_step_def)
  with s show ?thesis by simp
qed

text \<open>Claim C2, witness: the four frames \<open>frames4\<close>.\<close>

theorem strip4_layout_witness:
  "length frames4 = 4 \<and>
   sortFrames frames4 = frames4 \<and>
   l_width (calculateLayout (sortFrames frames4) 2 2048) = 266 \<and>
   l_height (calculateLayout (sortFrames frames4) 2 2048) = 68"
proof -
  have h1: "length frames4 = 4" by (simp add: frames4_def)
  have h2: "\<forall>fr\<in>set frames4. f_width fr = 64 \<and> f_height fr = 64"
    by (simp add: frames4_def frame64_def)
  from strip4_layout [OF h1 h2] h1 h2 show ?thesis by auto
qed

text \<open>
  Claim C2 as stated (positions as above and a sheet of 202 by 66) does not hold for the
  four frames \<open>frames4\<close>.
\<close>

theorem strip4_sheet_size_counterexample:
  "\<not> (positions (calculateLayout (sortFrames frames4) 2 2048) =
         [\<lparr>pos_x = 2, pos_y = 2\<rparr>, \<lparr>pos_x = 68, pos_y = 2\<rparr>,
          \<lparr>pos_x = 134, pos_y = 2\<rparr>, \<lparr>pos_x = 200, pos_y = 2\<rparr>] \<and>
       l_width (calculateLayout (sortFrames frames4) 2 2048) = 202 \<and>
       l_height (calculateLayout (sortFrames frames4) 2 2048) = 66)"
  by (simp add: sortFrames_frames4 layout_frames4)

section \<open>Placed frames do not overlap\<close>

lemma layout_step_fields:
  "st_positions (layout_step pad maxW fr st) =
     st_positions st @ [\<lparr>pos_x = (if currentX st + f_width fr + pad > maxW then pad else currentX st),
                         pos_y = (if currentX st + f_width fr + pad > maxW
                                  then currentY st + (rowHeight st + pad) else currentY st)\<rparr>]"
  "currentX (layout_step pad maxW fr st) =
     (if currentX st + f_width fr + pad > maxW then pad else currentX st) + (f_width fr + pad)"
  "currentY (layout_step pad maxW fr st) =
     (if currentX st + f_width fr + pad > maxW
      then currentY st + (rowHeight st + pad) else currentY st)"
  "rowHeight (layout_step pad maxW fr st) =
     max (if currentX st + f_width fr + pad > maxW then 0 else rowHeight st) (f_height fr)"
  "sheetWidth (layout_step pad maxW fr st) =
     max (sheetWidth st) (currentX (layout_step pad maxW fr st))"
  by (simp_all add: layout_step_def Let_def)

lemma layout_inv_step:
  assumes inv: "layout_inv pad placed st" and pad: "0 \<le> pad" and w: "0 \<le> f_width fr"
  shows "layout_inv pad (placed @ [fr]) (layout_step pad maxW fr st)"
proof -
  let ?st' = "layout_step pad maxW fr st"
  let ?new = "currentX st + f_width fr + pad > maxW"
  let ?p = "\<lparr>pos_x = (if ?new then pad else currentX st),
             pos_y = (if ?new then currentY st + (rowHeight st + pad) else currentY st)\<rparr>"
  from inv have len: "length (st_positions st) = length placed"
    and rh: "0 \<le> rowHeight st"
    and ok: "list_all (placed_ok pad st) (zip placed (st_positions st))"
    and sep: "sorted_wrt (separated pad) (zip placed (st_positions st))"
    by (simp_all add: layout_inv_def)
  have zip': "zip (placed @ [fr]) (st_positions ?st') = zip placed (st_positions st) @ [(fr, ?p)]"
    using len by (simp add: layout_step_fields)
  have old_ok: "placed_ok pad ?st' a \<and> separated pad a (fr, ?p)"
    if a: "a \<in> set (zip placed (st_positions st))" for a
  proof -
    from ok a have "placed_ok pad st a" by (simp add: list_all_iff)
    then show ?thesis
      using pad w rh by (auto simp: placed_ok_def separated_def layout_step_fields)
  qed
  have new_ok: "placed_ok pad ?st' (fr, ?p)"
    by (simp add: placed_ok_def layout_step_fields)
  have "0 \<le> rowHeight ?st'" using rh by (auto simp: layout_step_fields)
  moreover have "length (st_positions ?st') = length (placed @ [fr])"
    using len by (simp add: layout_step_fields)
  moreover have "list_all (placed_ok pad ?st') (zip (placed @ [fr]) (st_positions ?st'))"
    unfolding zip' using old_ok new_ok by (simp add: list_all_iff)
  moreover have "sorted_wrt (separated pad) (zip (placed @ [fr]) (st_positions ?st'))"
    unfolding zip' using sep old_ok by (simp add: sorted_wrt_append)
  ultimately show ?thesis by (simp add: layout_inv_def)
qed

lemma layout_inv_loop:
  "layout_inv pad placed st \<Longrightarrow> 0 \<le> pad \<Longrightarrow> \<forall>fr\<in>set frs. 0 \<le> f_width fr \<Longrightarrow>
     layout_inv pad (placed @ frs) (layout_loop pad maxW frs st)"
proof (induction frs arbitrary: placed st)
  case Nil
  then show ?case by simp
next
  case (Cons fr frs)
  from Cons.prems have "layout_inv pad (placed @ [fr]) (layout_step pad maxW fr st)"
    by (intro layout_inv_step) simp_all
  from Cons.IH [OF this] Cons.prems show ?case by simp
qed

lemma layout_inv_init: "layout_inv pad [] (layout_init pad)"
  by (simp add: layout_inv_def layout_init_def)

lemma calculateLayout_separated:
  assumes "0 \<le> pad" and "\<forall>fr\<in>set frs. 0 \<le> f_width fr"
  shows "length (positions (calculateLayout frs pad maxW)) = length frs"
    and "sorted_wrt (separated pad) (zip frs (positions (calculateLayout frs pad maxW)))"
proof -
  from layout_inv_loop [OF layout_inv_init assms, of maxW]
  have "layout_inv pad frs (layout_loop pad maxW frs (layout_init pad))" by simp
  then show "length (positions (calculateLayout frs pad maxW)) = length frs"
    and "sorted_wrt (separated pad) (zip frs (positions (calculateLayout frs pad maxW)))"
    by (simp_all add: layout_inv_def calculateLayout_def Let_def)
qed

lemma separated_not_intersect:
  "0 \<le> pad \<Longrightarrow> separated pad (fa, pa) (fb, pb) \<Longrightarrow>
     \<not> rects_intersect (af_frame (atlas_entry fa pa)) (af_frame (atlas_entry fb pb))"
  by (auto simp: separated_def rects_intersect_def atlas_entry_def)

lemma set_sortFrames [simp]: "set (sortFrames frames) = set frames"
  by (simp add: sortFrames_def)

lemma length_sortFrames [simp]: "length (sortFrames frames) = length frames"
  by (simp add: sortFrames_def)

text \<open>
  Claim C1. Pixel quantities are non-negative: for a padding \<open>pad \<ge> 0\<close> and frames of
  non-negative width, the row layout of the height-sorted frames assigns one position to
  every frame, no two of the assigned rectangles \<open>(x, y, width, height)\<close> intersect, and
  of any two frames the one placed later is either in the same row at least \<open>pad\<close> pixels
  right of the earlier one, or at least \<open>pad\<close> pixels below it. This holds for every
  maximal width.
\<close>

theorem layout_rectangles_separated:
  assumes "0 \<le> pad" and "\<forall>fr\<in>set frames. 0 \<le> f_width fr"
    and "i < j" and "j < length frames"
  shows "length (positions (calculateLayout (sortFrames frames) pad maxW)) = length frames \<and>
         \<not> rects_intersect
             (af_frame (atlas_entry (sortFrames frames ! i)
                (positions (calculateLayout (sortFrames frames) pad maxW) ! i)))
             (af_frame (atlas_entry (sortFrames frames ! j)
                (positions (calculateLayout (sortFrames frames) pad maxW) ! j))) \<and>
         separated pad
           (sortFrames frames ! i, positions (calculateLayout (sortFrames frames) pad maxW) ! i)
           (sortFrames frames ! j, positions (calculateLayout (sortFrames frames) pad maxW) ! j)"
proof -
  let ?fs = "sortFrames frames"
  let ?ps = "positions (calculateLayout ?fs pad maxW)"
  from assms(2) have w: "\<forall>fr\<in>set ?fs. 0 \<le> f_width fr" by simp
  have len: "length ?ps = length ?fs"
    and srt: "sorted_wrt (separated pad) (zip ?fs ?ps)"
    using calculateLayout_separated [OF assms(1) w] by simp_all
  from assms(3,4) len have "separated pad (zip ?fs ?ps ! i) (zip ?fs ?ps ! j)"
    using srt by (simp add: sorted_wrt_iff_nth_less)
  with assms(3,4) len have s: "separated pad (?fs ! i, ?ps ! i) (?fs ! j, ?ps ! j)"
    by simp
  from separated_not_intersect [OF assms(1) s] s len show ?thesis by simp
qed

text \<open>Claim C1, witness: \<open>frames4\<close> with padding 2 in rows of width 140; the first and
  the third frame lie in different rows.\<close>

theorem layout_rectangles_separated_witness:
  "separated 2
     (sortFrames frames4 ! 0, positions (calculateLayout (sortFrames frames4) 2 140) ! 0)
     (sortFrames frames4 ! 2, positions (calculateLayout (sortFrames frames4) 2 140) ! 2) \<and>
   positions (calculateLayout (sortFrames frames4) 2 140) ! 0 = \<lparr>pos_x = 2, pos_y = 2\<rparr> \<and>
   positions (calculateLayout (sortFrames frames4) 2 140) ! 2 = \<lparr>pos_x = 2, pos_y = 68\<rparr>"
proof -
  have h1: "(0::int) \<le> 2" by simp
  have h2: "\<forall>fr\<in>set frames4. 0 \<le> f_width fr" by (simp add: frames4_def frame64_def)
  have h3: "(0::nat) < 2" by simp
  have h4: "2 < length frames4" by (simp add: frames4_def)
  have ps: "positions (calculateLayout frames4 2 140) =
     [\<lparr>pos_x = 2, pos_y = 2\<rparr>, \<lparr>pos_x = 68, pos_y = 2\<rparr>,
      \<lparr>pos_x = 2, pos_y = 68\<rparr>, \<lparr>pos_x = 68, pos_y = 68\<rparr>]"
    by (simp add: calculateLayout_def layout_init_def layout_step_def frames4_def frame64_def)
  from layout_rectangles_separated [OF h1 h2 h3 h4, of 140] ps show ?thesis
    by (simp add: sortFrames_frames4)
qed

section \<open>Sheet width and maximal width\<close>

lemma sheetWidth_loop_le:
  "sheetWidth st \<le> maxW \<Longrightarrow> \<forall>fr\<in>set frs. f_width fr + 2 * pad \<le> maxW \<Longrightarrow>
     sheetWidth (layout_loop pad maxW frs st) \<le> maxW"
proof (induction frs arbitrary: st)
  case Nil
  then show ?case by simp
next
  case (Cons fr frs)
  from Cons.prems have "sheetWidth (layout_step pad maxW fr st) \<le> maxW"
    by (auto simp: layout_step_fields)
  from Cons.IH [OF this] Cons.prems show ?case by simp
qed

lemma sheetWidth_loop_mono: "sheetWidth st \<le> sheetWidth (layout_loop pad maxW frs st)"
proof (induction frs arbitrary: st)
  case Nil
  then show ?case by simp
next
  case (Cons fr frs)
  have "sheetWidth st \<le> sheetWidth (layout_step pad maxW fr st)"
    by (simp add: layout_step_fields)
  also have "\<dots> \<le> sheetWidth (layout_loop pad maxW frs (layout_step pad maxW fr st))"
    by (rule Cons.IH)
  finally show ?case by simp
qed

lemma sheetWidth_loop_gt:
  "pad \<le> currentX st \<Longrightarrow> 0 \<le> pad \<Longrightarrow> \<forall>fr\<in>set frs. 0 \<le> f_width fr \<Longrightarrow>
     fr \<in> set frs \<Longrightarrow> maxW < f_width fr + 2 * pad \<Longrightarrow>
     maxW < sheetWidth (layout_loop pad maxW frs st)"
proof (induction frs arbitrary: st)
  case Nil
  then show ?case by simp
next
  case (Cons a frs)
  show ?case
  proof (cases "fr = a")
    case True
    with Cons.prems have "maxW < sheetWidth (layout_step pad maxW a st)"
      by (auto simp: layout_step_fields)
    also have "\<dots> \<le> sheetWidth (layout_loop pad maxW frs (layout_step pad maxW a st))"
      by (rule sheetWidth_loop_mono)
    finally show ?thesis by simp
  next
    case False
    from Cons.prems have "pad \<le> currentX (layout_step pad maxW a st)"
      by (auto simp: layout_step_fields)
    from Cons.IH [OF this] Cons.prems False show ?thesis by simp
  qed
qed

text \<open>
  Claim C3, as the code has it. With \<open>maxW \<ge> 0\<close>, the width of the layout before
  power-of-two rounding is at most \<open>maxW\<close> if every frame fits a row by itself, that is
  \<open>width + 2 * pad \<le> maxW\<close>. For non-negative padding and widths this is also necessary:
  a frame that does not fit a row by itself is still placed, at the start of a new row,
  and makes the sheet wider than \<open>maxW\<close>.
\<close>

theorem sheet_width_within_maxWidth:
  assumes "0 \<le> maxW"
  shows "((\<forall>fr\<in>set frames. f_width fr + 2 * pad \<le> maxW) \<longrightarrow>
            l_width (calculateLayout (sortFrames frames) pad maxW) \<le> maxW) \<and>
         (0 \<le> pad \<and> (\<forall>fr\<in>set frames. 0 \<le> f_width fr) \<and>
            l_width (calculateLayout (sortFrames frames) pad maxW) \<le> maxW \<longrightarrow>
            (\<forall>fr\<in>set frames. f_width fr + 2 * pad \<le> maxW))"
proof (intro conjI impI ballI)
  assume "\<forall>fr\<in>set frames. f_width fr + 2 * pad \<le> maxW"
  then have "\<forall>fr\<in>set (sortFrames frames). f_width fr + 2 * pad \<le> maxW" by simp
  with assms show "l_width (calculateLayout (sortFrames frames) pad maxW) \<le> maxW"
    by (simp add: calculateLayout_def Let_def sheetWidth_loop_le layout_init_def)
next
  fix fr
  assume a: "0 \<le> pad \<and> (\<forall>fr\<in>set frames. 0 \<le> f_width fr) \<and>
            l_width (calculateLayout (sortFrames frames) pad maxW) \<le> maxW"
    and fr: "fr \<in> set frames"
  show "f_width fr + 2 * pad \<le> maxW"
  proof (rule ccontr)
    assume "\<not> f_width fr + 2 * pad \<le> maxW"
    then have "maxW < f_width fr + 2 * pad" by simp
    with a fr have "maxW < sheetWidth (layout_loop pad maxW (sortFrames frames) (layout_init pad))"
      by (intro sheetWidth_loop_gt) (simp_all add: layout_init_def)
    with a show False by (simp add: calculateLayout_def Let_def)
  qed
qed

text \<open>Claim C3, witness: \<open>frames4\<close> with padding 2 and maximal width 2048.\<close>

theorem sheet_width_within_maxWidth_witness:
  "l_width (calculateLayout (sortFrames frames4) 2 2048) \<le> 2048 \<and>
   l_width (calculateLayout (sortFrames frames4) 2 2048) = 266"
proof -
  have h: "(0::int) \<le> 2048" by simp
  have fit: "\<forall>fr\<in>set frames4. f_width fr + 2 * 2 \<le> 2048"
    by (simp add: frames4_def frame64_def)
  from sheet_width_within_maxWidth [OF h, of frames4 2] fit
  have "l_width (calculateLayout (sortFrames frames4) 2 2048) \<le> 2048" by blast
  then show ?thesis by (simp add: sortFrames_frames4 layout_frames4)
qed

text \<open>
  Claim C3 as stated fails for a single frame of width 3000 with padding 1 and maximal
  width 2048: the frame is placed and the sheet is 3002 wide.
\<close>

theorem sheet_width_counterexample:
  "\<not> l_width (calculateLayout (sortFrames [wide_frame]) 1 2048) \<le> 2048"
  by (simp add: sortFrames_def calculateLayout_def layout_init_def layout_step_def wide_frame_def)

lemma wide_frame_sheet_width: "l_width (calculateLayout (sortFrames [wide_frame]) 1 2048) = 3002"
  by (simp add: sortFrames_def calculateLayout_def layout_init_def layout_step_def wide_frame_def)

section \<open>Power-of-two rounding\<close>








section \<open>Frames with the same name\<close>













text \<open>
  The grouping step for a frame whose animation name is not the name of an inherited
  property: it does not throw, and it appends the reference of the frame to the references
  of its animation.
\<close>

lemma anim_step_frames:
  assumes "\<not> animation_name_inherited fr"
  shows "\<exists>anims1. anim_step fr anims = Inr anims1 \<and>
           (\<forall>a. animation_frames anims1 a =
              (if animation fr = Some a \<and> a \<noteq> []
               then Some ((case animation_frames anims a of None \<Rightarrow> [] | Some rs \<Rightarrow> rs)
                          @ [frame_ref_of fr])
               else animation_frames anims a))"
proof (cases "animation fr")
  case None
  then show ?thesis by (simp add: anim_step_def)
next
  case (Some animName)
  with assms have ni: "animName \<notin> set object_prototype_names"
    by (simp add: animation_name_inherited_def)
  show ?thesis
  proof (cases "animName = []")
    case True
    with Some show ?thesis by (simp add: anim_step_def)
  next
    case False
    with Some ni show ?thesis
      by (auto simp: anim_step_def animation_frames_def Let_def map_of_map_entry update_conv'
          frame_ref_of_def split: option.splits)
  qed
qed

lemma anim_loop_frames:
  assumes "\<forall>fr\<in>set frs. \<not> animation_name_inherited fr"
  shows "\<exists>anims1. anim_loop frs acc = Inr anims1 \<and>
           (\<forall>a. animation_frames anims1 a =
              (if a \<noteq> [] \<and> (\<exists>fr\<in>set frs. animation fr = Some a)
               then Some ((case animation_frames acc a of None \<Rightarrow> [] | Some rs \<Rightarrow> rs)
                          @ frame_refs a frs)
               else animation_frames acc a))"
  using assms
proof (induction frs arbitrary: acc)
  case Nil
  then show ?case by simp
next
  case (Cons fr frs)
  from Cons.prems have "\<not> animation_name_inherited fr" by simp
  from anim_step_frames [OF this, of acc] obtain acc1 where
    s: "anim_step fr acc = Inr acc1"
    and f: "\<forall>a. animation_frames acc1 a =
              (if animation fr = Some a \<and> a \<noteq> []
               then Some ((case animation_frames acc a of None \<Rightarrow> [] | Some rs \<Rightarrow> rs)
                          @ [frame_ref_of fr])
               else animation_frames acc a)"
    by blast
  from Cons.prems have "\<forall>fr\<in>set frs. \<not> animation_name_inherited fr" by simp
  from Cons.IH [OF this, of acc1] obtain anims1 where
    l: "anim_loop frs acc1 = Inr anims1"
    and g: "\<forall>a. animation_frames anims1 a =
              (if a \<noteq> [] \<and> (\<exists>fr\<in>set frs. animation fr = Some a)
               then Some ((case animation_frames acc1 a of None \<Rightarrow> [] | Some rs \<Rightarrow> rs)
                          @ frame_refs a frs)
               else animation_frames acc1 a)"
    by blast
  have "anim_loop (fr # frs) acc = Inr anims1" using s l by simp
  moreover have "\<forall>a. animation_frames anims1 a =
              (if a \<noteq> [] \<and> (\<exists>fr\<in>set (fr # frs). animation fr = Some a)
               then Some ((case animation_frames acc a of None \<Rightarrow> [] | Some rs \<Rightarrow> rs)
                          @ frame_refs a (fr # frs))
               else animation_frames acc a)"
    by (simp add: g f) (auto simp: frame_refs_def)
  ultimately show ?case by blast
qed

lemma animation_frames_generate:
  assumes "\<forall>fr\<in>set frames. \<not> animation_name_inherited fr"
  shows "\<exists>anims. generateAnimationsJson frames = Inr anims \<and>
           (\<forall>a. animation_frames anims a =
              (if a \<noteq> [] \<and> (\<exists>fr\<in>set frames. animation fr = Some a)
               then Some (sort_key ref_frame (frame_refs a frames))
               else None))"
proof -
  from anim_loop_frames [OF assms, of "[]"] obtain anims1 where
    l: "anim_loop frames [] = Inr anims1"
    and g: "\<forall>a. animation_frames anims1 a =
              (if a \<noteq> [] \<and> (\<exists>fr\<in>set frames. animation fr = Some a)
               then Some (frame_refs a frames) else None)"
    by (auto simp: animation_frames_def)
  let ?anims = "map (\<lambda>(k, d). (k, sort_anim d)) anims1"
  have "generateAnimationsJson frames = Inr ?anims"
    using l by (simp add: generateAnimationsJson_def)
  moreover have "animation_frames ?anims a =
      map_option (sort_key ref_frame) (animation_frames anims1 a)" for a
    by (simp add: animation_frames_def map_of_map sort_anim_def option.map_comp comp_def)
  ultimately show ?thesis using g by auto
qed

text \<open>
  A frame whose animation is the name of an inherited property, such as \<open>constructor\<close>,
  makes \<open>generateAnimationsJson\<close> throw; a frame named \<open>__proto__\<close> gets no entry in the
  atlas.
\<close>

lemma anim_step_inherited:
  assumes "animation fr = Some a" and "a \<in> set object_prototype_names"
    and "map_of anims a = None"
  shows "anim_step fr anims = Inl TypeError"
proof -
  from assms(2) have "a \<noteq> []" by (auto simp: object_prototype_names_def)
  with assms show ?thesis by (simp add: anim_step_def)
qed

lemma atlas_add_frames_proto:
  "frameName fr = ''__proto__'' \<Longrightarrow> atlas_add_frames [fr] [p] [] = Inr []"
  by simp



section \<open>Animation index\<close>

lemma frame_refs_perm:
  assumes perm: "mset frames' = mset frames"
    and key: "\<forall>f\<in>set frames. \<forall>g\<in>set frames.
                animation f = animation g \<and> frameIndex f = frameIndex g \<longrightarrow> frameName f = frameName g"
  shows "sort_key ref_frame (frame_refs a frames') = sort_key ref_frame (frame_refs a frames)"
proof (rule sort_key_inj_key_eq)
  show "mset (frame_refs a frames') = mset (sort_key ref_frame (frame_refs a frames))"
    using perm by (simp add: frame_refs_def)
  from perm have "set frames' = set frames" by (rule mset_eq_setD)
  with key show "inj_on ref_frame (set (frame_refs a frames'))"
    by (auto simp: inj_on_def frame_refs_def frame_ref_of_def)
  show "sorted (map ref_frame (sort_key ref_frame (frame_refs a frames)))"
    by simp
qed

lemma walk_frames_ab:
  "generateAnimationsJson [walk_frame ''a'', walk_frame ''b''] =
     Inr [(''walk'', \<lparr>anim_fps = 10,
                      anim_frames = [\<lparr>ref_key = ''a'', ref_frame = 0\<rparr>, \<lparr>ref_key = ''b'', ref_frame = 0\<rparr>],
                      anim_loop = True\<rparr>)]"
  by (simp add: generateAnimationsJson_def anim_step_def sort_anim_def
      fps_or_default_def frameName_def walk_frame_def object_prototype_names_def)

lemma walk_frames_ba:
  "generateAnimationsJson [walk_frame ''b'', walk_frame ''a''] =
     Inr [(''walk'', \<lparr>anim_fps = 10,
                      anim_frames = [\<lparr>ref_key = ''b'', ref_frame = 0\<rparr>, \<lparr>ref_key = ''a'', ref_frame = 0\<rparr>],
                      anim_loop = True\<rparr>)]"
  by (simp add: generateAnimationsJson_def anim_step_def sort_anim_def
      fps_or_default_def frameName_def walk_frame_def object_prototype_names_def)

text \<open>
  Claim C7, as the code has it. Let no animation name be the name of an inherited
  property. Then \<open>generateAnimationsJson\<close> returns an index that has a key for every
  non-empty animation name that occurs; the references under a key are those of the
  frames of that animation, sorted by frame index, and references with the same frame
  index are in the order of the frame list. If frames of one animation that share a frame
  index also share their name, in particular if animation and frame index identify a
  frame, then the references of every animation are the same for every permutation of the
  frame list, among them the height-sorted list used for the layout.
\<close>

theorem animation_order_by_frameIndex:
  assumes names: "\<forall>fr\<in>set frames. \<not> animation_name_inherited fr"
  shows "\<exists>anims.
           generateAnimationsJson frames = Inr anims \<and>
           animation_frames anims a =
             (if a \<noteq> [] \<and> (\<exists>fr\<in>set frames. animation fr = Some a)
              then Some (sort_key ref_frame (frame_refs a frames)) else None) \<and>
           (\<forall>rs. animation_frames anims a = Some rs \<longrightarrow>
                 mset rs = mset (frame_refs a frames) \<and>
                 sorted (map ref_frame rs) \<and>
                 (\<forall>v. filter (\<lambda>r. ref_frame r = v) rs =
                      filter (\<lambda>r. ref_frame r = v) (frame_refs a frames))) \<and>
           ((\<forall>f\<in>set frames. \<forall>g\<in>set frames.
               animation f = animation g \<and> frameIndex f = frameIndex g \<longrightarrow>
               frameName f = frameName g) \<longrightarrow>
            (\<forall>frames'. mset frames' = mset frames \<longrightarrow>
               (\<exists>anims'. generateAnimationsJson frames' = Inr anims' \<and>
                          animation_frames anims' a = animation_frames anims a)) \<and>
            (\<exists>anims'. generateAnimationsJson (sortFrames frames) = Inr anims' \<and>
                       animation_frames anims' a = animation_frames anims a))"
proof -
  from animation_frames_generate [OF names] obtain anims where
    g: "generateAnimationsJson frames = Inr anims"
    and f: "\<forall>a. animation_frames anims a =
              (if a \<noteq> [] \<and> (\<exists>fr\<in>set frames. animation fr = Some a)
               then Some (sort_key ref_frame (frame_refs a frames)) else None)"
    by blast
  have p2: "\<forall>rs. animation_frames anims a = Some rs \<longrightarrow>
                 mset rs = mset (frame_refs a frames) \<and>
                 sorted (map ref_frame rs) \<and>
                 (\<forall>v. filter (\<lambda>r. ref_frame r = v) rs =
                      filter (\<lambda>r. ref_frame r = v) (frame_refs a frames))"
    by (auto simp: f sort_key_stable split: if_splits)
  have p3: "\<exists>anims'. generateAnimationsJson frames' = Inr anims' \<and>
                       animation_frames anims' a = animation_frames anims a"
    if key: "\<forall>f\<in>set frames. \<forall>g\<in>set frames.
               animation f = animation g \<and> frameIndex f = frameIndex g \<longrightarrow>
               frameName f = frameName g"
      and perm: "mset frames' = mset frames" for frames'
  proof -
    from perm have s: "set frames' = set frames" by (rule mset_eq_setD)
    with names have "\<forall>fr\<in>set frames'. \<not> animation_name_inherited fr" by simp
    from animation_frames_generate [OF this] obtain anims' where
      g': "generateAnimationsJson frames' = Inr anims'"
      and f': "\<forall>a. animation_frames anims' a =
              (if a \<noteq> [] \<and> (\<exists>fr\<in>set frames'. animation fr = Some a)
               then Some (sort_key ref_frame (frame_refs a frames')) else None)"
      by blast
    have "animation_frames anims' a = animation_frames anims a"
      using frame_refs_perm [OF perm key, of a] s by (simp add: f f')
    with g' show ?thesis by blast
  qed
  have "mset (sortFrames frames) = mset frames" by (simp add: sortFrames_def)
  with p3 have p4: "\<exists>anims'. generateAnimationsJson (sortFrames frames) = Inr anims' \<and>
                       animation_frames anims' a = animation_frames anims a"
    if "\<forall>f\<in>set frames. \<forall>g\<in>set frames.
               animation f = animation g \<and> frameIndex f = frameIndex g \<longrightarrow>
               frameName f = frameName g"
    using that by blast
  show ?thesis
    apply (rule exI [of _ anims])
    using g f [rule_format, of a] p2 p3 p4 by blast
qed

text \<open>Claim C7, witness: \<open>frames4\<close> and its reversal.\<close>

theorem animation_order_by_frameIndex_witness:
  "\<exists>anims anims'.
     generateAnimationsJson frames4 = Inr anims \<and>
     generateAnimationsJson (rev frames4) = Inr anims' \<and>
     animation_frames anims' ''walk'' = animation_frames anims ''walk'' \<and>
     animation_frames anims ''walk'' =
       Some [\<lparr>ref_key = ''walk_0'', ref_frame = 0\<rparr>, \<lparr>ref_key = ''walk_1'', ref_frame = 1\<rparr>,
             \<lparr>ref_key = ''walk_2'', ref_frame = 2\<rparr>, \<lparr>ref_key = ''walk_3'', ref_frame = 3\<rparr>]"
proof -
  have names: "\<forall>fr\<in>set frames4. \<not> animation_name_inherited fr"
    by (simp add: frames4_def frame64_def animation_name_inherited_def object_prototype_names_def)
  have perm: "mset (rev frames4) = mset frames4" by simp
  have key: "\<forall>f\<in>set frames4. \<forall>g\<in>set frames4.
      animation f = animation g \<and> frameIndex f = frameIndex g \<longrightarrow> frameName f = frameName g"
    by (simp add: frames4_def frame64_def)
  have ex: "\<exists>fr\<in>set frames4. animation fr = Some ''walk''"
    by (simp add: frames4_def frame64_def)
  have refs: "sort_key ref_frame (frame_refs ''walk'' frames4) =
       [\<lparr>ref_key = ''walk_0'', ref_frame = 0\<rparr>, \<lparr>ref_key = ''walk_1'', ref_frame = 1\<rparr>,
        \<lparr>ref_key = ''walk_2'', ref_frame = 2\<rparr>, \<lparr>ref_key = ''walk_3'', ref_frame = 3\<rparr>]"
    by (simp add: frame_refs_def frame_ref_of_def frameName_def frames4_def frame64_def
        js_number_string_def nat_string.simps)
  from animation_order_by_frameIndex [OF names, of "''walk''"] obtain anims where
    a: "generateAnimationsJson frames4 = Inr anims"
    and b: "animation_frames anims ''walk'' =
             (if ''walk'' \<noteq> [] \<and> (\<exists>fr\<in>set frames4. animation fr = Some ''walk'')
              then Some (sort_key ref_frame (frame_refs ''walk'' frames4)) else None)"
    and c: "(\<forall>f\<in>set frames4. \<forall>g\<in>set frames4.
               animation f = animation g \<and> frameIndex f = frameIndex g \<longrightarrow>
               frameName f = frameName g) \<longrightarrow>
            (\<forall>frames'. mset frames' = mset frames4 \<longrightarrow>
               (\<exists>anims'. generateAnimationsJson frames' = Inr anims' \<and>
                          animation_frames anims' ''walk'' = animation_frames anims ''walk'')) \<and>
            (\<exists>anims'. generateAnimationsJson (sortFrames frames4) = Inr anims' \<and>
                       animation_frames anims' ''walk'' = animation_frames anims ''walk'')"
    by (elim exE conjE) (rule that; assumption)
  from c [THEN mp, OF key] perm obtain anims' where
    d: "generateAnimationsJson (rev frames4) = Inr anims'"
      "animation_frames anims' ''walk'' = animation_frames anims ''walk''"
    by blast
  from b ex refs have "animation_frames anims ''walk'' =
       Some [\<lparr>ref_key = ''walk_0'', ref_frame = 0\<rparr>, \<lparr>ref_key = ''walk_1'', ref_frame = 1\<rparr>,
             \<lparr>ref_key = ''walk_2'', ref_frame = 2\<rparr>, \<lparr>ref_key = ''walk_3'', ref_frame = 3\<rparr>]"
    by simp
  with a d show ?thesis by blast
qed

text \<open>
  Claim C7 as stated fails when two frames of one animation share a frame index: the
  stable sort keeps them in the order of the input, so a permutation of the input changes
  the order of the animation's frames.
\<close>

theorem animation_order_counterexample:
  "mset [walk_frame ''b'', walk_frame ''a''] = mset [walk_frame ''a'', walk_frame ''b''] \<and>
   generateAnimationsJson [walk_frame ''a'', walk_frame ''b''] =
     Inr [(''walk'', \<lparr>anim_fps = 10,
                      anim_frames = [\<lparr>ref_key = ''a'', ref_frame = 0\<rparr>, \<lparr>ref_key = ''b'', ref_frame = 0\<rparr>],
                      anim_loop = True\<rparr>)] \<and>
   generateAnimationsJson [walk_frame ''b'', walk_frame ''a''] =
     Inr [(''walk'', \<lparr>anim_fps = 10,
                      anim_frames = [\<lparr>ref_key = ''b'', ref_frame = 0\<rparr>, \<lparr>ref_key = ''a'', ref_frame = 0\<rparr>],
                      anim_loop = True\<rparr>)]"
  by (simp add: walk_frames_ab walk_frames_ba)

section \<open>Slicing a strip\<close>

lemma slice_loop_frames:
  assumes ext: "\<forall>k. i \<le> k \<and> k < fc \<and> k * fw + fw \<le> sm_width md \<longrightarrow>
                  (\<exists>b. ext buf (strip_region md fw fh k) = Inr b)"
  shows "\<exists>new lg'. slice_loop ext buf md fw fh fc i frames lg = (Inr (frames @ new), lg') \<and>
           filter is_mismatch_warning lg' = filter is_mismatch_warning lg \<and>
           i + int (length new) \<le> max i fc \<and>
           (\<forall>k<length new.
              ef_index (new ! k) = i + int k \<and> ef_x (new ! k) = (i + int k) * fw \<and>
              ef_y (new ! k) = 0 \<and> ef_width (new ! k) = fw \<and> ef_height (new ! k) = fh \<and>
              ext buf (strip_region md fw fh (i + int k)) = Inr (ef_buffer (new ! k)) \<and>
              (i + int k) * fw + fw \<le> sm_width md) \<and>
           (i + int (length new) < fc \<longrightarrow> (i + int (length new)) * fw + fw > sm_width md)"
  using ext
proof (induction "nat (fc - i)" arbitrary: i frames lg rule: less_induct)
  case less
  show ?case
  proof (cases "i < fc")
    case False
    then have "slice_loop ext buf md fw fh fc i frames lg = (Inr (frames @ []), lg)"
      by (subst slice_loop.simps) simp
    with False show ?thesis by (intro exI [of _ "[]"] exI [of _ lg]) simp
  next
    case True
    show ?thesis
    proof (cases "i * fw + fw > sm_width md")
      case exceed: True
      with True have "slice_loop ext buf md fw fh fc i frames lg =
          (Inr (frames @ []), lg @ [WarnFrameExceedsBounds i])"
        by (subst slice_loop.simps) (simp add: Let_def)
      with True exceed show ?thesis
        by (intro exI [of _ "[]"] exI [of _ "lg @ [WarnFrameExceedsBounds i]"])
          (simp add: is_mismatch_warning_def)
    next
      case fits: False
      with True less.prems obtain b where b: "ext buf (strip_region md fw fh i) = Inr b"
        by (metis not_less order_refl)
      let ?fr = "\<lparr>ef_buffer = b, ef_index = i, ef_x = i * fw, ef_y = 0,
                  ef_width = fw, ef_height = fh\<rparr>"
      let ?lg = "lg @ [DebugExtractedFrame (i + 1) fc (i * fw)]"
      from b have b': "ext buf \<lparr>ex_left = i * fw, ex_top = 0, ex_width = fw,
                       ex_height = min fh (sm_height md)\<rparr> = Inr b"
        by (simp add: strip_region_def)
      have step: "slice_loop ext buf md fw fh fc i frames lg =
          slice_loop ext buf md fw fh fc (i + 1) (frames @ [?fr]) ?lg"
        using True fits b' by (subst slice_loop.simps) (simp add: Let_def)
      from True have m: "nat (fc - (i + 1)) < nat (fc - i)" by simp
      have "\<forall>k. i + 1 \<le> k \<and> k < fc \<and> k * fw + fw \<le> sm_width md \<longrightarrow>
                  (\<exists>b. ext buf (strip_region md fw fh k) = Inr b)"
        using less.prems by simp
      from less.hyps [OF m this, of "frames @ [?fr]" ?lg]
      obtain new lg' where IH:
        "slice_loop ext buf md fw fh fc (i + 1) (frames @ [?fr]) ?lg = (Inr ((frames @ [?fr]) @ new), lg')"
        "filter is_mismatch_warning lg' = filter is_mismatch_warning ?lg"
        "i + 1 + int (length new) \<le> max (i + 1) fc"
        "\<forall>k<length new.
              ef_index (new ! k) = i + 1 + int k \<and> ef_x (new ! k) = (i + 1 + int k) * fw \<and>
              ef_y (new ! k) = 0 \<and> ef_width (new ! k) = fw \<and> ef_height (new ! k) = fh \<and>
              ext buf (strip_region md fw fh (i + 1 + int k)) = Inr (ef_buffer (new ! k)) \<and>
              (i + 1 + int k) * fw + fw \<le> sm_width md"
        "i + 1 + int (length new) < fc \<longrightarrow> (i + 1 + int (length new)) * fw + fw > sm_width md"
        by blast
      have all: "\<forall>k<length (?fr # new).
              ef_index ((?fr # new) ! k) = i + int k \<and> ef_x ((?fr # new) ! k) = (i + int k) * fw \<and>
              ef_y ((?fr # new) ! k) = 0 \<and> ef_width ((?fr # new) ! k) = fw \<and>
              ef_height ((?fr # new) ! k) = fh \<and>
              ext buf (strip_region md fw fh (i + int k)) = Inr (ef_buffer ((?fr # new) ! k)) \<and>
              (i + int k) * fw + fw \<le> sm_width md"
      proof (intro allI impI)
        fix k assume k: "k < length (?fr # new)"
        show "ef_index ((?fr # new) ! k) = i + int k \<and> ef_x ((?fr # new) ! k) = (i + int k) * fw \<and>
              ef_y ((?fr # new) ! k) = 0 \<and> ef_width ((?fr # new) ! k) = fw \<and>
              ef_height ((?fr # new) ! k) = fh \<and>
              ext buf (strip_region md fw fh (i + int k)) = Inr (ef_buffer ((?fr # new) ! k)) \<and>
              (i + int k) * fw + fw \<le> sm_width md"
        proof (cases k)
          case 0
          with b fits show ?thesis by simp
        next
          case (Suc k')
          with k have k': "k' < length new" by simp
          from Suc have e: "i + int k = i + 1 + int k'" by simp
          from Suc have n: "(?fr # new) ! k = new ! k'" by simp
          from IH(4) [rule_format, OF k'] show ?thesis unfolding e n .
        qed
      qed
      show ?thesis
        apply (rule exI [of _ "?fr # new"], rule exI [of _ lg'])
        using step IH(1,2,3,5) all True
        by (simp add: is_mismatch_warning_def add.assoc)
    qed
  qed
qed


lemma slice_loop_error:
  assumes ik: "i \<le> k" and kfc: "k < fc"
    and fit: "\<forall>j. i \<le> j \<and> j \<le> k \<longrightarrow> j * fw + fw \<le> sm_width md"
    and ok: "\<forall>j. i \<le> j \<and> j < k \<longrightarrow> (\<exists>b. ext buf (strip_region md fw fh j) = Inr b)"
    and err: "ext buf (strip_region md fw fh k) = Inl e"
  shows "\<exists>lg1. slice_loop ext buf md fw fh fc i frames lg =
                 (Inl e, lg @ lg1 @ [ErrorFailedToExtract k e])"
  using ik fit ok
proof (induction "nat (k - i)" arbitrary: i frames lg rule: less_induct)
  case less
  from less.prems(1) kfc have ifc: "i < fc" by simp
  from less.prems(1,2) have fits: "\<not> i * fw + fw > sm_width md" by (simp add: not_less)
  show ?case
  proof (cases "i = k")
    case True
    from err True have e': "ext buf \<lparr>ex_left = i * fw, ex_top = 0, ex_width = fw,
                       ex_height = min fh (sm_height md)\<rparr> = Inl e"
      by (simp add: strip_region_def)
    have "slice_loop ext buf md fw fh fc i frames lg = (Inl e, lg @ [] @ [ErrorFailedToExtract k e])"
      using ifc fits e' True by (subst slice_loop.simps) (simp add: Let_def)
    then show ?thesis by blast
  next
    case False
    with less.prems(1) have lt: "i < k" by simp
    with less.prems(3) obtain b where b: "ext buf (strip_region md fw fh i) = Inr b" by blast
    let ?fr = "\<lparr>ef_buffer = b, ef_index = i, ef_x = i * fw, ef_y = 0,
                ef_width = fw, ef_height = fh\<rparr>"
    let ?lg = "lg @ [DebugExtractedFrame (i + 1) fc (i * fw)]"
    from b have b': "ext buf \<lparr>ex_left = i * fw, ex_top = 0, ex_width = fw,
                     ex_height = min fh (sm_height md)\<rparr> = Inr b"
      by (simp add: strip_region_def)
    have step: "slice_loop ext buf md fw fh fc i frames lg =
        slice_loop ext buf md fw fh fc (i + 1) (frames @ [?fr]) ?lg"
      using ifc fits b' by (subst slice_loop.simps) (simp add: Let_def)
    from lt have m: "nat (k - (i + 1)) < nat (k - i)" by simp
    from lt have p1: "i + 1 \<le> k" by simp
    have p2: "\<forall>j. i + 1 \<le> j \<and> j \<le> k \<longrightarrow> j * fw + fw \<le> sm_width md"
      using less.prems(2) by simp
    have p3: "\<forall>j. i + 1 \<le> j \<and> j < k \<longrightarrow> (\<exists>b. ext buf (strip_region md fw fh j) = Inr b)"
      using less.prems(3) by simp
    from less.hyps [OF m p1 p2 p3, of "frames @ [?fr]" ?lg] obtain lg1 where
      "slice_loop ext buf md fw fh fc (i + 1) (frames @ [?fr]) ?lg =
         (Inl e, ?lg @ lg1 @ [ErrorFailedToExtract k e])"
      by blast
    with step have "slice_loop ext buf md fw fh fc i frames lg =
        (Inl e, lg @ (DebugExtractedFrame (i + 1) fc (i * fw) # lg1) @ [ErrorFailedToExtract k e])"
      by simp
    then show ?thesis by blast
  qed
qed

text \<open>
  Claim C4, as the code has it. Let the metadata of the strip be read. If the extraction
  of every frame that lies within the width of the strip succeeds, then \<open>sliceStrip\<close>
  returns frames in index order, frame \<open>k\<close> cut at \<open>x = k * frameWidth\<close>, \<open>y = 0\<close> with
  the frame width and with the frame height cropped to the height of the strip, and
  recorded with the nominal frame width and height. A difference between the actual width
  or height and the expected one only adds a warning to the log. Fewer than \<open>frameCount\<close>
  frames are returned exactly if some frame would exceed the width of the strip;
  extraction stops at the first such frame. A frame higher than the strip does not stop
  the extraction. If instead the extraction of a frame \<open>k\<close> fails, all frames up to \<open>k\<close>
  lying within the width of the strip and those before \<open>k\<close> having been extracted, then
  the error is logged last and thrown again: \<open>sliceStrip\<close> returns no frames.
\<close>

theorem sliceStrip_frames:
  assumes md: "sharp_metadata buf = Inr md"
  shows "((\<forall>k. 0 \<le> k \<and> k < fc \<and> k * fw + fw \<le> sm_width md \<longrightarrow>
              (\<exists>b. sharp_extract buf (strip_region md fw fh k) = Inr b)) \<longrightarrow>
          (\<exists>frames lg.
             sliceStrip sharp_metadata sharp_extract buf fw fh fc = (Inr frames, lg) \<and>
             (\<forall>k<length frames.
                ef_index (frames ! k) = int k \<and> ef_x (frames ! k) = int k * fw \<and>
                ef_y (frames ! k) = 0 \<and> ef_width (frames ! k) = fw \<and> ef_height (frames ! k) = fh \<and>
                sharp_extract buf (strip_region md fw fh (int k)) = Inr (ef_buffer (frames ! k)) \<and>
                int k * fw + fw \<le> sm_width md) \<and>
             int (length frames) \<le> max 0 fc \<and>
             (int (length frames) < fc \<longleftrightarrow> (\<exists>k. 0 \<le> k \<and> k < fc \<and> sm_width md < k * fw + fw)) \<and>
             (int (length frames) < fc \<longrightarrow> sm_width md < int (length frames) * fw + fw) \<and>
             (WarnStripWidthMismatch (fw * fc) (sm_width md) \<in> set lg \<longleftrightarrow> sm_width md \<noteq> fw * fc) \<and>
             (WarnStripHeightMismatch fh (sm_height md) \<in> set lg \<longleftrightarrow> sm_height md \<noteq> fh))) \<and>
         (\<forall>k e. 0 \<le> k \<and> k < fc \<and>
                (\<forall>j. 0 \<le> j \<and> j \<le> k \<longrightarrow> j * fw + fw \<le> sm_width md) \<and>
                (\<forall>j. 0 \<le> j \<and> j < k \<longrightarrow> (\<exists>b. sharp_extract buf (strip_region md fw fh j) = Inr b)) \<and>
                sharp_extract buf (strip_region md fw fh k) = Inl e \<longrightarrow>
                (\<exists>lg. sliceStrip sharp_metadata sharp_extract buf fw fh fc =
                         (Inl e, lg @ [ErrorFailedToExtract k e])))"
proof (intro conjI impI allI)
  assume ext: "\<forall>k. 0 \<le> k \<and> k < fc \<and> k * fw + fw \<le> sm_width md \<longrightarrow>
                (\<exists>b. sharp_extract buf (strip_region md fw fh k) = Inr b)"
  let ?lg2 = "(if sm_width md \<noteq> fw * fc then [WarnStripWidthMismatch (fw * fc) (sm_width md)] else [])
      @ (if sm_height md \<noteq> fh then [WarnStripHeightMismatch fh (sm_height md)] else [])"
  from slice_loop_frames [of 0 fc fw md sharp_extract buf fh "[]" ?lg2] ext
  obtain new lg' where L:
    "slice_loop sharp_extract buf md fw fh fc 0 [] ?lg2 = (Inr new, lg')"
    "filter is_mismatch_warning lg' = filter is_mismatch_warning ?lg2"
    "int (length new) \<le> max 0 fc"
    "\<forall>k<length new.
              ef_index (new ! k) = int k \<and> ef_x (new ! k) = int k * fw \<and>
              ef_y (new ! k) = 0 \<and> ef_width (new ! k) = fw \<and> ef_height (new ! k) = fh \<and>
              sharp_extract buf (strip_region md fw fh (int k)) = Inr (ef_buffer (new ! k)) \<and>
              int k * fw + fw \<le> sm_width md"
    "int (length new) < fc \<longrightarrow> int (length new) * fw + fw > sm_width md"
    by auto
  let ?lg = "lg' @ [InfoSliced (length new)]"
  have res: "sliceStrip sharp_metadata sharp_extract buf fw fh fc = (Inr new, ?lg)"
    using md L(1) by (simp add: sliceStrip_def Let_def)
  have mem: "e \<in> set ?lg \<longleftrightarrow> e \<in> set ?lg2" if "is_mismatch_warning e" for e
  proof -
    from that have "e \<in> set ?lg \<longleftrightarrow> e \<in> set (filter is_mismatch_warning lg')"
      by (auto simp: is_mismatch_warning_def)
    also have "\<dots> \<longleftrightarrow> e \<in> set (filter is_mismatch_warning ?lg2)" by (simp only: L(2))
    also have "\<dots> \<longleftrightarrow> e \<in> set ?lg2" using that by simp
    finally show ?thesis .
  qed
  have w: "WarnStripWidthMismatch (fw * fc) (sm_width md) \<in> set ?lg \<longleftrightarrow> sm_width md \<noteq> fw * fc"
    by (subst mem) (simp_all add: is_mismatch_warning_def)
  have h: "WarnStripHeightMismatch fh (sm_height md) \<in> set ?lg \<longleftrightarrow> sm_height md \<noteq> fh"
    by (subst mem) (simp_all add: is_mismatch_warning_def)
  have short: "int (length new) < fc \<longleftrightarrow> (\<exists>k. 0 \<le> k \<and> k < fc \<and> sm_width md < k * fw + fw)"
  proof
    assume "int (length new) < fc"
    with L(5) have "0 \<le> int (length new) \<and> int (length new) < fc \<and>
        sm_width md < int (length new) * fw + fw" by simp
    then show "\<exists>k. 0 \<le> k \<and> k < fc \<and> sm_width md < k * fw + fw" by blast
  next
    assume "\<exists>k. 0 \<le> k \<and> k < fc \<and> sm_width md < k * fw + fw"
    then obtain k where k: "0 \<le> k" "k < fc" "sm_width md < k * fw + fw" by blast
    show "int (length new) < fc"
    proof (rule ccontr)
      assume "\<not> int (length new) < fc"
      with k have "nat k < length new" by simp
      with L(4) have "int (nat k) * fw + fw \<le> sm_width md" by blast
      with k show False by simp
    qed
  qed
  show "\<exists>frames lg.
             sliceStrip sharp_metadata sharp_extract buf fw fh fc = (Inr frames, lg) \<and>
             (\<forall>k<length frames.
                ef_index (frames ! k) = int k \<and> ef_x (frames ! k) = int k * fw \<and>
                ef_y (frames ! k) = 0 \<and> ef_width (frames ! k) = fw \<and> ef_height (frames ! k) = fh \<and>
                sharp_extract buf (strip_region md fw fh (int k)) = Inr (ef_buffer (frames ! k)) \<and>
                int k * fw + fw \<le> sm_width md) \<and>
             int (length frames) \<le> max 0 fc \<and>
             (int (length frames) < fc \<longleftrightarrow> (\<exists>k. 0 \<le> k \<and> k < fc \<and> sm_width md < k * fw + fw)) \<and>
             (int (length frames) < fc \<longrightarrow> sm_width md < int (length frames) * fw + fw) \<and>
             (WarnStripWidthMismatch (fw * fc) (sm_width md) \<in> set lg \<longleftrightarrow> sm_width md \<noteq> fw * fc) \<and>
             (WarnStripHeightMismatch fh (sm_height md) \<in> set lg \<longleftrightarrow> sm_height md \<noteq> fh)"
    apply (rule exI [of _ new], rule exI [of _ ?lg])
    using res L(3,4,5) short w h by simp
next
  fix k e
  assume a: "0 \<le> k \<and> k < fc \<and>
                (\<forall>j. 0 \<le> j \<and> j \<le> k \<longrightarrow> j * fw + fw \<le> sm_width md) \<and>
                (\<forall>j. 0 \<le> j \<and> j < k \<longrightarrow> (\<exists>b. sharp_extract buf (strip_region md fw fh j) = Inr b)) \<and>
                sharp_extract buf (strip_region md fw fh k) = Inl e"
  let ?lg2 = "(if sm_width md \<noteq> fw * fc then [WarnStripWidthMismatch (fw * fc) (sm_width md)] else [])
      @ (if sm_height md \<noteq> fh then [WarnStripHeightMismatch fh (sm_height md)] else [])"
  from a have a1: "0 \<le> k" and a2: "k < fc"
    and a3: "\<forall>j. 0 \<le> j \<and> j \<le> k \<longrightarrow> j * fw + fw \<le> sm_width md"
    and a4: "\<forall>j. 0 \<le> j \<and> j < k \<longrightarrow> (\<exists>b. sharp_extract buf (strip_region md fw fh j) = Inr b)"
    and a5: "sharp_extract buf (strip_region md fw fh k) = Inl e"
    by blast+
  from slice_loop_error [where ext = sharp_extract and buf = buf and i = 0 and k = k and fc = fc
      and fw = fw and fh = fh and md = md and e = e and frames = "[]" and lg = ?lg2,
      OF a1 a2 a3 a4 a5] obtain lg1 where
    "slice_loop sharp_extract buf md fw fh fc 0 [] ?lg2 = (Inl e, ?lg2 @ lg1 @ [ErrorFailedToExtract k e])"
    by blast
  with md have "sliceStrip sharp_metadata sharp_extract buf fw fh fc =
      (Inl e, (?lg2 @ lg1) @ [ErrorFailedToExtract k e])"
    by (simp add: sliceStrip_def Let_def)
  then show "\<exists>lg. sliceStrip sharp_metadata sharp_extract buf fw fh fc =
                         (Inl e, lg @ [ErrorFailedToExtract k e])"
    by blast
qed

text \<open>Claim C4, witness: four frames of 64 by 64 requested from a strip 200 wide give fewer
  than four frames and a width warning; if the extraction of the second frame fails, the
  call fails with that error, logged last.\<close>

theorem sliceStrip_frames_witness:
  "(\<exists>frames lg. sliceStrip narrow_strip_metadata extract_ok [] 64 64 4 = (Inr frames, lg) \<and>
      int (length frames) < 4 \<and> 200 < int (length frames) * 64 + 64 \<and>
      WarnStripWidthMismatch 256 200 \<in> set lg) \<and>
   (\<exists>lg. sliceStrip narrow_strip_metadata (extract_fails_at 64) [] 64 64 4 =
      (Inl ''extract_area: bad extract area'',
       lg @ [ErrorFailedToExtract 1 ''extract_area: bad extract area'']))"
proof -
  let ?md = "\<lparr>sm_width = 200, sm_height = 64\<rparr>"
  have md: "narrow_strip_metadata [] = Inr ?md"
    by (simp add: narrow_strip_metadata_def)
  have ext: "\<forall>k. 0 \<le> k \<and> k < 4 \<and> k * 64 + 64 \<le> sm_width ?md \<longrightarrow>
      (\<exists>b. extract_ok [] (strip_region ?md 64 64 k) = Inr b)"
    by (simp add: extract_ok_def)
  have ex3: "\<exists>k::int. 0 \<le> k \<and> k < 4 \<and> 200 < k * 64 + 64"
    by (rule exI [of _ 3]) simp
  note ok = sliceStrip_frames [where sharp_metadata = narrow_strip_metadata and buf = "[]"
      and md = ?md and fc = 4 and fw = 64 and fh = 64 and sharp_extract = extract_ok,
      OF md, THEN conjunct1, THEN mp, OF ext]
  from ok ex3 have first: "\<exists>frames lg. sliceStrip narrow_strip_metadata extract_ok [] 64 64 4 = (Inr frames, lg) \<and>
      int (length frames) < 4 \<and> 200 < int (length frames) * 64 + 64 \<and>
      WarnStripWidthMismatch 256 200 \<in> set lg"
    by auto
  have fail: "(0::int) \<le> 1 \<and> (1::int) < 4 \<and>
      (\<forall>j. 0 \<le> j \<and> j \<le> 1 \<longrightarrow> j * 64 + 64 \<le> sm_width ?md) \<and>
      (\<forall>j. 0 \<le> j \<and> j < 1 \<longrightarrow>
            (\<exists>b. extract_fails_at 64 [] (strip_region ?md 64 64 j) = Inr b)) \<and>
      extract_fails_at 64 [] (strip_region ?md 64 64 1) = Inl ''extract_area: bad extract area''"
  proof (intro conjI allI impI)
    fix j :: int assume "0 \<le> j \<and> j \<le> 1"
    then have "j = 0 \<or> j = 1" by auto
    then show "j * 64 + 64 \<le> sm_width ?md" by auto
  next
    fix j :: int assume "0 \<le> j \<and> j < 1"
    then have "j = 0" by simp
    then show "\<exists>b. extract_fails_at 64 [] (strip_region ?md 64 64 j) = Inr b"
      by (simp add: extract_fails_at_def strip_region_def)
  qed (simp_all add: extract_fails_at_def strip_region_def)
  note err = sliceStrip_frames [where sharp_metadata = narrow_strip_metadata and buf = "[]"
      and md = ?md and fc = 4 and fw = 64 and fh = 64 and sharp_extract = "extract_fails_at 64",
      OF md, THEN conjunct2, rule_format, OF fail]
  from first err show ?thesis by (intro conjI)
qed

lemma short_strip_slice:
  "sliceStrip short_strip_metadata extract_ok [] 64 64 2 =
     (Inr [\<lparr>ef_buffer = [], ef_index = 0, ef_x = 0, ef_y = 0, ef_width = 64, ef_height = 64\<rparr>,
           \<lparr>ef_buffer = [], ef_index = 1, ef_x = 64, ef_y = 0, ef_width = 64, ef_height = 64\<rparr>],
      [WarnStripHeightMismatch 64 32, DebugExtractedFrame 1 2 0, DebugExtractedFrame 2 2 64,
       InfoSliced 2])"
  by (simp add: sliceStrip_def short_strip_metadata_def extract_ok_def slice_loop.simps)

text \<open>
  Claim C4 as stated fails for a strip of 128 by 32 pixels cut into two frames of 64 by
  64: the rectangle of the first frame exceeds the bounds of the strip (it is higher than
  the strip), yet both frames are returned.
\<close>

theorem sliceStrip_bounds_counterexample:
  "rect_exceeds_bounds \<lparr>sm_width = 128, sm_height = 32\<rparr> (0 * 64) 0 64 64 \<and>
   short_strip_metadata [] = Inr \<lparr>sm_width = 128, sm_height = 32\<rparr> \<and>
   length (case fst (sliceStrip short_strip_metadata extract_ok [] 64 64 2) of
             Inl e \<Rightarrow> [] | Inr frames \<Rightarrow> frames) = 2"
  by (simp add: short_strip_slice rect_exceeds_bounds_def short_strip_metadata_def)

section \<open>Removing a background colour\<close>

lemma length_removeBackground_loop [simp]:
  "length (removeBackground_loop bg tol i d) = length d"
  by (induction bg tol i d rule: removeBackground_loop.induct)
    (subst removeBackground_loop.simps, simp)

lemma matchesBackground_update:
  "k mod 4 = 0 \<Longrightarrow> m mod 4 = 3 \<Longrightarrow>
     matchesBackground bg tol (d[m := v]) k = matchesBackground bg tol d k"
proof -
  assume k: "k mod 4 = 0" and m: "m mod 4 = 3"
  then have "k \<noteq> m" "Suc k \<noteq> m" "Suc (Suc k) \<noteq> m" by presburger+
  then show ?thesis
    by (simp add: matchesBackground_def byte_at_def nat_add_distrib)
qed

lemma removeBackground_loop_nth:
  "i mod 4 = 0 \<Longrightarrow> j < length d \<Longrightarrow>
     removeBackground_loop bg tol i d ! j =
       (if i \<le> j \<and> j mod 4 = 3 \<and> matchesBackground bg tol d (j - 3) then 0 else d ! j)"
proof (induction bg tol i d rule: removeBackground_loop.induct)
  case (1 bg tol i d)
  let ?d' = "if matchesBackground bg tol d i then d[i + 3 := 0] else d"
  show ?case
  proof (cases "i < length d")
    case False
    with "1.prems" show ?thesis by (subst removeBackground_loop.simps) simp
  next
    case True
    from "1.prems" have i4: "(i + 4) mod 4 = 0" by simp
    from "1.prems" have j': "j < length ?d'" by simp
    have loop: "removeBackground_loop bg tol i d = removeBackground_loop bg tol (i + 4) ?d'"
      using True by (subst removeBackground_loop.simps) simp
    note IH = "1.IH" [OF True i4 j']
    show ?thesis
    proof (cases "j = i + 3")
      case j: True
      with "1.prems" have "j mod 4 = 3" by presburger
      with j "1.prems" show ?thesis unfolding loop IH by simp
    next
      case j: False
      then have same: "?d' ! j = d ! j" by simp
      show ?thesis
      proof (cases "i + 4 \<le> j \<and> j mod 4 = 3")
        case True
        then have "(j - 3) mod 4 = 0" by presburger
        moreover from "1.prems" have "(i + 3) mod 4 = 3" by presburger
        ultimately have "matchesBackground bg tol ?d' (j - 3) = matchesBackground bg tol d (j - 3)"
          by (simp add: matchesBackground_update)
        with True same show ?thesis unfolding loop IH by simp
      next
        case False
        with j "1.prems" have "\<not> (i \<le> j \<and> j mod 4 = 3)" by presburger
        with False same show ?thesis unfolding loop IH by auto
      qed
    qed
  qed
qed

text \<open>
  Claim C9. When the image decodes, \<open>removeBackground\<close> encodes a pixel buffer of the
  same length in which, for every pixel, the red, green and blue bytes are unchanged and
  the alpha byte is 0 if the absolute differences of the red, green and blue values from
  the background colour are all at most the tolerance, and unchanged otherwise. No byte
  other than the alpha byte of a matching pixel is changed.
\<close>

theorem removeBackground_pixels:
  fixes options :: remove_options
  defines "bg \<equiv> (case backgroundColor options of
                    None \<Rightarrow> \<lparr>rgb_r = 255, rgb_g = 255, rgb_b = 255\<rparr> | Some c \<Rightarrow> c)"
    and "tol \<equiv> (case tolerance options of None \<Rightarrow> 10 | Some t \<Rightarrow> t)"
  assumes raw: "sharp_raw_alpha imageBuffer = Inr img"
  shows "\<exists>out. removeBackground sharp_raw_alpha sharp_png imageBuffer options =
                  sharp_png \<lparr>raw_data = out, raw_info = raw_info img\<rparr> \<and>
           length out = length (raw_data img) \<and>
           (\<forall>p. 4 * p + 3 < length (raw_data img) \<longrightarrow>
              out ! (4 * p) = raw_data img ! (4 * p) \<and>
              out ! (4 * p + 1) = raw_data img ! (4 * p + 1) \<and>
              out ! (4 * p + 2) = raw_data img ! (4 * p + 2) \<and>
              out ! (4 * p + 3) =
                (if \<bar>uint (raw_data img ! (4 * p)) - rgb_r bg\<bar> \<le> tol \<and>
                    \<bar>uint (raw_data img ! (4 * p + 1)) - rgb_g bg\<bar> \<le> tol \<and>
                    \<bar>uint (raw_data img ! (4 * p + 2)) - rgb_b bg\<bar> \<le> tol
                 then 0 else raw_data img ! (4 * p + 3))) \<and>
           (\<forall>j<length (raw_data img). j mod 4 \<noteq> 3 \<longrightarrow> out ! j = raw_data img ! j)"
proof -
  let ?d = "raw_data img"
  let ?out = "removeBackground_loop bg tol 0 ?d"
  have res: "removeBackground sharp_raw_alpha sharp_png imageBuffer options =
                  sharp_png \<lparr>raw_data = ?out, raw_info = raw_info img\<rparr>"
    using raw by (simp add: removeBackground_def bg_def tol_def Let_def)
  have nth: "?out ! j =
       (if j mod 4 = 3 \<and> matchesBackground bg tol ?d (j - 3) then 0 else ?d ! j)"
    if "j < length ?d" for j
    using removeBackground_loop_nth [of 0 j ?d bg tol] that by simp
  have mb: "matchesBackground bg tol ?d (4 * p) \<longleftrightarrow>
        \<bar>uint (?d ! (4 * p)) - rgb_r bg\<bar> \<le> tol \<and>
        \<bar>uint (?d ! (4 * p + 1)) - rgb_g bg\<bar> \<le> tol \<and>
        \<bar>uint (?d ! (4 * p + 2)) - rgb_b bg\<bar> \<le> tol"
    if p: "4 * p + 3 < length ?d" for p
  proof -
    have "nat (4 * int p) = 4 * p" by linarith
    with p show ?thesis
      by (simp add: matchesBackground_def byte_at_def channel_close_def nat_add_distrib)
  qed
  have px: "?out ! (4 * p) = ?d ! (4 * p) \<and> ?out ! (4 * p + 1) = ?d ! (4 * p + 1) \<and>
         ?out ! (4 * p + 2) = ?d ! (4 * p + 2) \<and>
         ?out ! (4 * p + 3) =
                (if \<bar>uint (?d ! (4 * p)) - rgb_r bg\<bar> \<le> tol \<and>
                    \<bar>uint (?d ! (4 * p + 1)) - rgb_g bg\<bar> \<le> tol \<and>
                    \<bar>uint (?d ! (4 * p + 2)) - rgb_b bg\<bar> \<le> tol
                 then 0 else ?d ! (4 * p + 3))"
    if p: "4 * p + 3 < length ?d" for p
  proof -
    have m0: "(4 * p) mod 4 \<noteq> 3" "(4 * p + 1) mod 4 \<noteq> 3" "(4 * p + 2) mod 4 \<noteq> 3"
      "(4 * p + 3) mod 4 = 3" by presburger+
    from p have lt: "4 * p < length ?d" "4 * p + 1 < length ?d" "4 * p + 2 < length ?d" by simp_all
    have a0: "?out ! (4 * p) = ?d ! (4 * p)" using nth [OF lt(1)] m0(1) by simp
    have a1: "?out ! (4 * p + 1) = ?d ! (4 * p + 1)" using nth [OF lt(2)] m0(2) by simp
    have a2: "?out ! (4 * p + 2) = ?d ! (4 * p + 2)" using nth [OF lt(3)] m0(3) by simp
    have a3: "?out ! (4 * p + 3) =
        (if matchesBackground bg tol ?d (4 * p) then 0 else ?d ! (4 * p + 3))"
      using nth [OF p] m0(4) by simp
    from a0 a1 a2 a3 show ?thesis unfolding mb [OF p] by blast
  qed
  have len: "length ?out = length ?d" by simp
  have rest: "\<forall>j<length ?d. j mod 4 \<noteq> 3 \<longrightarrow> ?out ! j = ?d ! j"
    using nth by simp
  from res len px rest show ?thesis by blast
qed


text \<open>Claim C9, witness: with the default colour (white) and tolerance 10 the near-white
  pixel becomes transparent and the dark pixel is unchanged.\<close>

theorem removeBackground_pixels_witness:
  "removeBackground raw_two_pixels png_of_raw [] default_remove_options =
     Inr [250, 250, 250, 0, 10, 20, 30, 255]"
proof -
  have raw: "raw_two_pixels [] =
      Inr \<lparr>raw_data = [250, 250, 250, 255, 10, 20, 30, 255],
           raw_info = \<lparr>info_width = 2, info_height = 1\<rparr>\<rparr>"
    by (simp add: raw_two_pixels_def)
  from removeBackground_pixels [where sharp_raw_alpha = raw_two_pixels and imageBuffer = "[]"
      and img = "\<lparr>raw_data = [250, 250, 250, 255, 10, 20, 30, 255],
                   raw_info = \<lparr>info_width = 2, info_height = 1\<rparr>\<rparr>"
      and options = default_remove_options and sharp_png = png_of_raw, OF raw]
  obtain out where out:
    "removeBackground raw_two_pixels png_of_raw [] default_remove_options = Inr out"
    "length out = 8"
    "\<forall>p. 4 * p + 3 < (8::nat) \<longrightarrow>
       out ! (4 * p) = [250, 250, 250, 255, 10, 20, 30, 255 :: 8 word] ! (4 * p) \<and>
       out ! (4 * p + 1) = [250, 250, 250, 255, 10, 20, 30, 255 :: 8 word] ! (4 * p + 1) \<and>
       out ! (4 * p + 2) = [250, 250, 250, 255, 10, 20, 30, 255 :: 8 word] ! (4 * p + 2) \<and>
       out ! (4 * p + 3) =
         (if \<bar>uint ([250, 250, 250, 255, 10, 20, 30, 255 :: 8 word] ! (4 * p)) - 255\<bar> \<le> 10 \<and>
             \<bar>uint ([250, 250, 250, 255, 10, 20, 30, 255 :: 8 word] ! (4 * p + 1)) - 255\<bar> \<le> 10 \<and>
             \<bar>uint ([250, 250, 250, 255, 10, 20, 30, 255 :: 8 word] ! (4 * p + 2)) - 255\<bar> \<le> 10
          then 0 else [250, 250, 250, 255, 10, 20, 30, 255 :: 8 word] ! (4 * p + 3))"
    by (auto simp: default_remove_options_def png_of_raw_def)
  from out(2) obtain a b c d e f g h where o: "out = [a, b, c, d, e, f, g, h]"
    by (auto simp: length_Suc_conv numeral_eq_Suc)
  from out(3) [rule_format, of 0] out(3) [rule_format, of 1]
  have "out ! 0 = 250 \<and> out ! Suc 0 = 250 \<and> out ! Suc (Suc 0) = 250 \<and> out ! 3 = 0 \<and>
        out ! 4 = 10 \<and> out ! 5 = 20 \<and> out ! 6 = 30 \<and> out ! 7 = 255"
    by simp
  then have "out = [250, 250, 250, 0, 10, 20, 30, 255]"
    unfolding o by simp
  with out(1) show ?thesis by simp
qed

section \<open>The validation report\<close>

lemma details_validateTransparency:
  "validateTransparency sharp_raw cfg imageBuffer md = Inr tr \<Longrightarrow>
     set (details tr) \<subseteq> {OnlyPercentTransparent (transparentPercent tr) (minTransparentBorderPercent cfg)}"
  by (auto simp: validateTransparency_def Let_def split: sum.splits if_splits)

text \<open>
  Claim C6. \<open>validatePng\<close> always yields a report (errors of the image library are caught
  inside the function), and the report is valid exactly if it has no errors. A buffer whose
  metadata cannot be read yields the single error \<open>FailedToParse\<close>. Otherwise every check
  contributes its error exactly if it is violated, whatever the other checks give: the
  format, the channel count, the presence of alpha, the expected width and height (where
  one is given and non-zero), and, for an image with alpha, the border transparency; an
  error of the library while reading the pixels adds \<open>FailedToParse\<close> to the errors
  collected before.
\<close>

theorem validatePng_collects_all_errors:
  fixes sharp_metadata :: "buffer \<Rightarrow> string + image_metadata"
    and sharp_raw :: "buffer \<Rightarrow> string + raw_image"
    and cfg :: validation_config and imageBuffer :: buffer and expectedSpec :: expected_spec
  defines "r \<equiv> validatePng sharp_metadata sharp_raw cfg imageBuffer expectedSpec"
  shows "(isValid r \<longleftrightarrow> errors r = []) \<and>
         (\<forall>e. sharp_metadata imageBuffer = Inl e \<longrightarrow> errors r = [FailedToParse e]) \<and>
         (\<forall>md. sharp_metadata imageBuffer = Inr md \<longrightarrow>
            (InvalidFormat (md_format md) \<in> set (errors r) \<longleftrightarrow> md_format md \<noteq> ''png'') \<and>
            (InvalidChannels (md_channels md) \<in> set (errors r) \<longleftrightarrow> md_channels md \<noteq> 4) \<and>
            (MissingAlphaChannel \<in> set (errors r) \<longleftrightarrow> \<not> md_hasAlpha md) \<and>
            (\<forall>w. InvalidWidth w (md_width md) \<in> set (errors r) \<longleftrightarrow>
                   exp_width expectedSpec = Some w \<and> w \<noteq> 0 \<and> md_width md \<noteq> w) \<and>
            (\<forall>h. InvalidHeight h (md_height md) \<in> set (errors r) \<longleftrightarrow>
                   exp_height expectedSpec = Some h \<and> h \<noteq> 0 \<and> md_height md \<noteq> h) \<and>
            (BackgroundNotTransparent \<in> set (errors r) \<longleftrightarrow>
                   md_hasAlpha md \<and>
                   (\<exists>tr. validateTransparency sharp_raw cfg imageBuffer md = Inr tr \<and>
                         \<not> isTransparent tr)) \<and>
            (\<forall>e. FailedToParse e \<in> set (errors r) \<longleftrightarrow>
                   md_hasAlpha md \<and> validateTransparency sharp_raw cfg imageBuffer md = Inl e))"
proof (intro conjI allI impI)
  show "isValid r \<longleftrightarrow> errors r = []"
    by (simp add: r_def validatePng_def Let_def split: sum.splits prod.splits)
next
  fix e assume "sharp_metadata imageBuffer = Inl e"
  then show "errors r = [FailedToParse e]"
    by (simp add: r_def validatePng_def)
next
  fix md assume md: "sharp_metadata imageBuffer = Inr md"
  have errs: "errors r = structural_errors md expectedSpec @
      transparency_errors sharp_raw cfg imageBuffer md"
    using md by (simp add: r_def validatePng_def)
  have tr: "set (transparency_errors sharp_raw cfg imageBuffer md) \<subseteq>
      {BackgroundNotTransparent} \<union> range FailedToParse \<union> (\<Union>p m. {OnlyPercentTransparent p m})"
  proof (cases "validateTransparency sharp_raw cfg imageBuffer md")
    case (Inl e)
    then show ?thesis by (auto simp: transparency_errors_def)
  next
    case (Inr t)
    from details_validateTransparency [OF Inr]
    have "set (details t) \<subseteq> (\<Union>p m. {OnlyPercentTransparent p m})" by blast
    with Inr show ?thesis by (auto simp: transparency_errors_def)
  qed
  show "InvalidFormat (md_format md) \<in> set (errors r) \<longleftrightarrow> md_format md \<noteq> ''png''"
    using tr by (auto simp: errs structural_errors_def dimension_errors_def split: option.splits)
  show "InvalidChannels (md_channels md) \<in> set (errors r) \<longleftrightarrow> md_channels md \<noteq> 4"
    using tr by (auto simp: errs structural_errors_def dimension_errors_def split: option.splits)
  show "MissingAlphaChannel \<in> set (errors r) \<longleftrightarrow> \<not> md_hasAlpha md"
    using tr by (auto simp: errs structural_errors_def dimension_errors_def split: option.splits)
  show "InvalidWidth w (md_width md) \<in> set (errors r) \<longleftrightarrow>
      exp_width expectedSpec = Some w \<and> w \<noteq> 0 \<and> md_width md \<noteq> w" for w
    using tr by (auto simp: errs structural_errors_def dimension_errors_def split: option.splits)
  show "InvalidHeight h (md_height md) \<in> set (errors r) \<longleftrightarrow>
      exp_height expectedSpec = Some h \<and> h \<noteq> 0 \<and> md_height md \<noteq> h" for h
    using tr by (auto simp: errs structural_errors_def dimension_errors_def split: option.splits)
  show "BackgroundNotTransparent \<in> set (errors r) \<longleftrightarrow>
      md_hasAlpha md \<and>
      (\<exists>tr. validateTransparency sharp_raw cfg imageBuffer md = Inr tr \<and> \<not> isTransparent tr)"
    by (auto simp: errs structural_errors_def dimension_errors_def transparency_errors_def
        split: option.splits sum.splits if_splits)
  show "FailedToParse e \<in> set (errors r) \<longleftrightarrow>
      md_hasAlpha md \<and> validateTransparency sharp_raw cfg imageBuffer md = Inl e" for e
    using details_validateTransparency [of sharp_raw cfg imageBuffer md]
    by (auto simp: errs structural_errors_def dimension_errors_def transparency_errors_def
        split: option.splits sum.splits if_splits)
qed

text \<open>Claim C6, witness: a JPEG without alpha and of the wrong width collects four errors;
  a buffer that cannot be parsed gives a report with the parse failure.\<close>

theorem validatePng_collects_all_errors_witness:
  "errors (validatePng jpeg_metadata no_raw config_validation []
             \<lparr>exp_width = Some 256, exp_height = Some 64\<rparr>) =
     [InvalidFormat ''jpeg'', InvalidChannels 3, MissingAlphaChannel, InvalidWidth 256 100] \<and>
   \<not> isValid (validatePng jpeg_metadata no_raw config_validation []
             \<lparr>exp_width = Some 256, exp_height = Some 64\<rparr>) \<and>
   errors (validatePng unparseable no_raw config_validation [1, 2, 3]
             \<lparr>exp_width = None, exp_height = None\<rparr>) =
     [FailedToParse ''Input buffer contains unsupported image format''] \<and>
   \<not> isValid (validatePng unparseable no_raw config_validation [1, 2, 3]
             \<lparr>exp_width = None, exp_height = None\<rparr>)"
proof -
  let ?r1 = "validatePng jpeg_metadata no_raw config_validation []
             \<lparr>exp_width = Some 256, exp_height = Some 64\<rparr>"
  let ?r2 = "validatePng unparseable no_raw config_validation [1, 2, 3]
             \<lparr>exp_width = None, exp_height = None\<rparr>"
  have e1: "errors ?r1 =
      [InvalidFormat ''jpeg'', InvalidChannels 3, MissingAlphaChannel, InvalidWidth 256 100]"
    by (simp add: validatePng_def jpeg_metadata_def structural_errors_def dimension_errors_def
        transparency_errors_def)
  have u: "unparseable [1, 2, 3] = Inl ''Input buffer contains unsupported image format''"
    by (simp add: unparseable_def)
  from validatePng_collects_all_errors [of unparseable no_raw config_validation "[1, 2, 3]"
      "\<lparr>exp_width = None, exp_height = None\<rparr>"] u
  have e2: "errors ?r2 = [FailedToParse ''Input buffer contains unsupported image format'']"
    and v2: "isValid ?r2 \<longleftrightarrow> errors ?r2 = []"
    by blast+
  from validatePng_collects_all_errors [of jpeg_metadata no_raw config_validation "[]"
      "\<lparr>exp_width = Some 256, exp_height = Some 64\<rparr>"]
  have v1: "isValid ?r1 \<longleftrightarrow> errors ?r1 = []" by blast
  from e1 e2 v1 v2 show ?thesis by simp
qed

section \<open>Border transparency\<close>

lemma count_samples_simps [simp]:
  "count_samples cfg raw [] c = c"
  "count_samples cfg raw (p # ps) c =
     count_samples cfg raw ps (count_sample cfg (getAlpha raw (fst p) (snd p)) c)"
  "count_samples cfg raw (ps @ qs) c = count_samples cfg raw qs (count_samples cfg raw ps c)"
  by (simp_all add: count_samples_def)


































end
